theory Spec2Isabelle
  imports Main "HOL-Library.Product_Lexorder"
begin

section \<open>Data model of the backlog board\<close>

text \<open>
  The store is the parsed content of the JSON database file: a list of projects and a
  list of items. Identifiers, secrets, titles and timestamps are strings. A position is a
  number or absent; the code reads it through \<^verbatim>\<open>item.position ?? 0\<close>. Positions written
  by the code are small integers, modelled as unbounded \<open>int\<close>.
\<close>

record project =
  proj_id :: string
  name :: string
  secretKey :: string
  proj_createdAt :: string

record item =
  item_id :: string
  projectId :: string
  title :: string
  description :: string
  status :: string
  position :: "int option"
  createdAt :: string
  updatedAt :: string

record data =
  projects :: "project list"
  items :: "item list"

text \<open>The messages thrown by the data layer, one constructor per \<^verbatim>\<open>throw new Error\<close>.\<close>

datatype error =
    ProjectNameRequired
  | SecretKeyRequired
  | SecretKeyExists
  | ItemTitleRequired
  | ItemTitleEmpty
  | InvalidStatus string
  | ProjectNotFound
  | ItemNotFound

definition message :: "error \<Rightarrow> string" where
  "message e = (case e of
      ProjectNameRequired \<Rightarrow> ''Project name is required.''
    | SecretKeyRequired \<Rightarrow> ''Secret key is required.''
    | SecretKeyExists \<Rightarrow> ''Secret key already exists. Choose a different one.''
    | ItemTitleRequired \<Rightarrow> ''Item title is required.''
    | ItemTitleEmpty \<Rightarrow> ''Item title cannot be empty.''
    | InvalidStatus s \<Rightarrow> ''Invalid status: '' @ s
    | ProjectNotFound \<Rightarrow> ''Project not found.''
    | ItemNotFound \<Rightarrow> ''Item not found.'')"

definition VALID_STATUSES :: "string list" where
  "VALID_STATUSES = [''backlog'', ''in_progress'', ''review'', ''done'']"

subsection \<open>JavaScript helpers\<close>

text \<open>
  \<^verbatim>\<open>String.prototype.trim\<close> on strings of 8-bit code units: the white space and line
  terminator code points below 256 are TAB, LF, VT, FF, CR, SP and NBSP.
\<close>

definition isWhiteSpace :: "char \<Rightarrow> bool" where
  "isWhiteSpace c \<longleftrightarrow>
     c \<in> set [CHR 0x09, CHR 0x0A, CHR 0x0B, CHR 0x0C, CHR 0x0D, CHR 0x20, CHR 0xA0]"

definition trim :: "string \<Rightarrow> string" where
  "trim s = rev (dropWhile isWhiteSpace (rev (dropWhile isWhiteSpace s)))"

text \<open>\<^verbatim>\<open>(x || '')\<close> for a string that may be undefined.\<close>

definition orEmpty :: "string option \<Rightarrow> string" where
  "orEmpty x = (case x of None \<Rightarrow> [] | Some s \<Rightarrow> s)"

text \<open>\<^verbatim>\<open>Array.prototype.findIndex\<close>, with \<open>None\<close> for \<^verbatim>\<open>-1\<close>.\<close>

fun findIndex :: "('a \<Rightarrow> bool) \<Rightarrow> 'a list \<Rightarrow> nat option" where
  "findIndex P [] = None"
| "findIndex P (x # xs) = (if P x then Some 0 else map_option Suc (findIndex P xs))"

text \<open>\<^verbatim>\<open>xs.splice(i, 1)\<close>: the list without its element at index \<open>i\<close>.\<close>

definition splice1 :: "nat \<Rightarrow> 'a list \<Rightarrow> 'a list" where
  "splice1 i xs = take i xs @ drop (Suc i) xs"

text \<open>\<^verbatim>\<open>item.position ?? 0\<close>.\<close>

definition pos0 :: "item \<Rightarrow> int" where
  "pos0 i = (case position i of None \<Rightarrow> 0 | Some p \<Rightarrow> p)"

text \<open>\<^verbatim>\<open>Math.max(...xs)\<close> for a non-empty argument list (the only use is guarded).\<close>

definition Math_max :: "int list \<Rightarrow> int" where
  "Math_max xs = fold max (tl xs) (hd xs)"

section \<open>The file-backed data layer\<close>

definition validateStatus :: "string \<Rightarrow> error option" where
  "validateStatus st = (if st \<in> set VALID_STATUSES then None else Some (InvalidStatus st))"

text \<open>
  \<^verbatim>\<open>statusOrder.get(s) ?? 0\<close>: the index of a status in \<^verbatim>\<open>VALID_STATUSES\<close>, 0 for
  any other string.
\<close>

definition statusOrder :: "string \<Rightarrow> nat" where
  "statusOrder s = (case findIndex (\<lambda>t. t = s) VALID_STATUSES of None \<Rightarrow> 0 | Some n \<Rightarrow> n)"

text \<open>
  \<^verbatim>\<open>sortItems\<close> sorts a copy with a comparator that orders by status index and then by
  position. The comparator is a total preorder and the sort of the language is stable,
  so the result is the stable sort on the lexicographic key.
\<close>

definition sortItems :: "item list \<Rightarrow> item list" where
  "sortItems xs = sort_key (\<lambda>i. (statusOrder (status i), pos0 i)) xs"

definition listProjectsSync :: "data \<Rightarrow> project list" where
  "listProjectsSync d = projects d"

definition getProjectByIdSync :: "data \<Rightarrow> string \<Rightarrow> project option" where
  "getProjectByIdSync d pid = List.find (\<lambda>p. proj_id p = pid) (projects d)"

definition getProjectBySecretSync :: "data \<Rightarrow> string option \<Rightarrow> project option" where
  "getProjectBySecretSync d key =
     (let normalizedKey = trim (orEmpty key) in
      if normalizedKey = [] then None
      else List.find (\<lambda>p. secretKey p = normalizedKey) (projects d))"

text \<open>
  Every mutating operation takes the store and returns its outcome together with the
  store afterwards; a throw happens before \<^verbatim>\<open>writeData\<close>, so it returns the store
  it read. Fresh identifiers (\<^verbatim>\<open>randomUUID()\<close>) and clock readings
  (\<^verbatim>\<open>new Date().toISOString()\<close>) are parameters.
\<close>

definition createProjectSync ::
  "string \<Rightarrow> string \<Rightarrow> string option \<times> string option \<Rightarrow> data \<Rightarrow> (error + project) \<times> data" where
  "createProjectSync newId now input d =
     (let normalizedName = trim (orEmpty (fst input));
          normalizedKey = trim (orEmpty (snd input)) in
      if normalizedName = [] then (Inl ProjectNameRequired, d)
      else if normalizedKey = [] then (Inl SecretKeyRequired, d)
      else (case List.find (\<lambda>p. secretKey p = normalizedKey) (projects d) of
              Some existingKey \<Rightarrow> (Inl SecretKeyExists, d)
            | None \<Rightarrow>
                (let newProject = \<lparr>proj_id = newId, name = normalizedName,
                                   secretKey = normalizedKey, proj_createdAt = now\<rparr>
                 in (Inr newProject, d\<lparr>projects := projects d @ [newProject]\<rparr>))))"

definition deleteProjectSync :: "string \<Rightarrow> data \<Rightarrow> bool \<times> data" where
  "deleteProjectSync pid d =
     (case findIndex (\<lambda>p. proj_id p = pid) (projects d) of
        None \<Rightarrow> (False, d)
      | Some projectIndex \<Rightarrow>
          (True, d\<lparr>projects := splice1 projectIndex (projects d),
                   items := filter (\<lambda>i. projectId i \<noteq> pid) (items d)\<rparr>))"

definition getItemsByProjectSync :: "string \<Rightarrow> data \<Rightarrow> item list" where
  "getItemsByProjectSync pid d = sortItems (filter (\<lambda>i. projectId i = pid) (items d))"

definition nextPositionForStatus :: "data \<Rightarrow> string \<Rightarrow> string \<Rightarrow> int" where
  "nextPositionForStatus d pid st =
     (let its = filter (\<lambda>i. projectId i = pid \<and> status i = st) (items d) in
      if length its = 0 then 1 else Math_max (map pos0 its) + 1)"

text \<open>
  The payload of an item creation: title, description (default \<^verbatim>\<open>''\<close>) and status
  (default \<^verbatim>\<open>'backlog'\<close>), each possibly undefined.
\<close>

record item_input =
  in_title :: "string option"
  in_description :: "string option"
  in_status :: "string option"

definition createItemSync ::
  "string \<Rightarrow> string \<Rightarrow> string \<Rightarrow> string \<Rightarrow> item_input \<Rightarrow> data \<Rightarrow> (error + item) \<times> data" where
  "createItemSync newId now1 now2 pid input d =
     (let normalizedTitle = trim (orEmpty (in_title input));
          st = (case in_status input of None \<Rightarrow> ''backlog'' | Some s \<Rightarrow> s) in
      if normalizedTitle = [] then (Inl ItemTitleRequired, d)
      else (case validateStatus st of
              Some e \<Rightarrow> (Inl e, d)
            | None \<Rightarrow>
               (case List.find (\<lambda>p. proj_id p = pid) (projects d) of
                  None \<Rightarrow> (Inl ProjectNotFound, d)
                | Some p \<Rightarrow>
                   (let newItem = \<lparr>item_id = newId, projectId = pid, title = normalizedTitle,
                                    description = trim (orEmpty (in_description input)),
                                    status = st,
                                    position = Some (nextPositionForStatus d pid st),
                                    createdAt = now1, updatedAt = now2\<rparr>
                    in (Inr newItem, d\<lparr>items := items d @ [newItem]\<rparr>)))))"

text \<open>
  \<^verbatim>\<open>updateItemSync\<close> copies the item, applies the supplied fields in the order title,
  description, status, stamps the copy and stores it at the index it was found at.
\<close>

definition updateItemSync ::
  "string \<Rightarrow> string \<Rightarrow> string \<Rightarrow> item_input \<Rightarrow> data \<Rightarrow> (error + item) \<times> data" where
  "updateItemSync now pid itemId updates d =
     (case findIndex (\<lambda>i. item_id i = itemId \<and> projectId i = pid) (items d) of
        None \<Rightarrow> (Inl ItemNotFound, d)
      | Some itemIndex \<Rightarrow>
         (let it = items d ! itemIndex in
          case (case in_title updates of
                  None \<Rightarrow> Inr it
                | Some t \<Rightarrow> (let newTitle = trim t in
                              if newTitle = [] then Inl ItemTitleEmpty
                              else Inr (it\<lparr>title := newTitle\<rparr>))) of
            Inl e \<Rightarrow> (Inl e, d)
          | Inr u1 \<Rightarrow>
             (let u2 = (case in_description updates of
                          None \<Rightarrow> u1
                        | Some ds \<Rightarrow> u1\<lparr>description := trim ds\<rparr>) in
              case (case in_status updates of
                      None \<Rightarrow> Inr u2
                    | Some s \<Rightarrow>
                       (case validateStatus s of
                          Some e \<Rightarrow> Inl e
                        | None \<Rightarrow>
                           if s \<noteq> status it
                           then Inr (u2\<lparr>status := s,
                                        position := Some (nextPositionForStatus d pid s)\<rparr>)
                           else Inr u2)) of
                Inl e \<Rightarrow> (Inl e, d)
              | Inr u3 \<Rightarrow>
                 (let updatedItem = u3\<lparr>updatedAt := now\<rparr>
                  in (Inr updatedItem, d\<lparr>items := (items d)[itemIndex := updatedItem]\<rparr>)))))"

definition deleteItemSync :: "string \<Rightarrow> string \<Rightarrow> data \<Rightarrow> (error + item) \<times> data" where
  "deleteItemSync pid itemId d =
     (case findIndex (\<lambda>i. item_id i = itemId \<and> projectId i = pid) (items d) of
        None \<Rightarrow> (Inl ItemNotFound, d)
      | Some itemIndex \<Rightarrow>
          (Inr (items d ! itemIndex), d\<lparr>items := splice1 itemIndex (items d)\<rparr>))"

text \<open>
  The callback of the inner \<^verbatim>\<open>forEach\<close> of \<^verbatim>\<open>reorderItemsSync\<close>: find the first item
  of the project with the identifier and, when there is one, overwrite its status,
  position and update stamp in place.
\<close>

definition reorderOne :: "string \<Rightarrow> string \<Rightarrow> (nat \<Rightarrow> string) \<Rightarrow> nat \<times> string \<Rightarrow> item list \<Rightarrow> item list" where
  "reorderOne pid st clock ix its =
     (case findIndex (\<lambda>i. item_id i = snd ix \<and> projectId i = pid) its of
        None \<Rightarrow> its
      | Some j \<Rightarrow> its[j := (its ! j)\<lparr>status := st, position := Some (int (fst ix) + 1),
                                    updatedAt := clock (fst ix)\<rparr>])"

text \<open>
  The request body's \<^verbatim>\<open>columns\<close> object: a status is mapped to a list of identifiers
  when its value is an array, and \<^verbatim>\<open>Array.isArray(columns[status]) ? columns[status] : []\<close>
  reads it.
\<close>

definition orderedIds :: "(string \<rightharpoonup> string list) \<Rightarrow> string \<Rightarrow> string list" where
  "orderedIds columns st = (case columns st of None \<Rightarrow> [] | Some ids \<Rightarrow> ids)"

definition reorderColumn ::
  "string \<Rightarrow> (string \<Rightarrow> nat \<Rightarrow> string) \<Rightarrow> (string \<rightharpoonup> string list) \<Rightarrow> string \<Rightarrow> item list \<Rightarrow> item list" where
  "reorderColumn pid clock columns st its =
     fold (reorderOne pid st (clock st)) (enumerate 0 (orderedIds columns st)) its"

definition reorderItemsSync ::
  "(string \<Rightarrow> nat \<Rightarrow> string) \<Rightarrow> string \<Rightarrow> (string \<rightharpoonup> string list) \<Rightarrow> data \<Rightarrow> (error + item list) \<times> data" where
  "reorderItemsSync clock pid columns d =
     (if \<not> list_ex (\<lambda>p. proj_id p = pid) (projects d) then (Inl ProjectNotFound, d)
      else (let d' = d\<lparr>items := fold (reorderColumn pid clock columns) VALID_STATUSES (items d)\<rparr>
            in (Inr (getItemsByProjectSync pid d'), d')))"

text \<open>The identifiers named by a request, in the order the two loops visit them.\<close>

definition payload :: "(string \<rightharpoonup> string list) \<Rightarrow> string list" where
  "payload columns = concat (map (orderedIds columns) VALID_STATUSES)"

section \<open>The HTTP layer\<close>

text \<open>
  The module that defines the \<^verbatim>\<open>...Sync\<close> functions exports each of them wrapped in an
  \<^verbatim>\<open>async\<close> arrow function, for instance
  \<^verbatim>\<open>getProjectById: async (projectId) => getProjectByIdSync(projectId)\<close>; the Postgres
  branch of the same module exports \<^verbatim>\<open>async\<close> functions too. The routes call these
  exports and use the result at once, without \<^verbatim>\<open>await\<close>. What a route holds after such a
  call is therefore either a plain value or a promise. A promise is an object: it is
  truthy, it has no own enumerable property, and reading \<^verbatim>\<open>secretKey\<close> from it gives
  \<^verbatim>\<open>undefined\<close>. The promise carries what it settles to, an error for a rejection;
  no route reads it.
\<close>

datatype 'a held = Value 'a | Promise "error + 'a"

text \<open>
  A project as a JSON object is a finite map from field names to strings;
  \<^verbatim>\<open>null\<close> is \<open>None\<close>.
\<close>

type_synonym json_object = "string \<rightharpoonup> string"

definition project_fields :: "project \<Rightarrow> json_object" where
  "project_fields p = [''id'' \<mapsto> proj_id p, ''name'' \<mapsto> name p,
                       ''secretKey'' \<mapsto> secretKey p, ''createdAt'' \<mapsto> proj_createdAt p]"

text \<open>\<^verbatim>\<open>!project\<close>: of the values a route can hold only \<^verbatim>\<open>null\<close> is falsy.\<close>

definition falsy :: "json_object option held \<Rightarrow> bool" where
  "falsy project \<longleftrightarrow> project = Value None"

text \<open>
  \<^verbatim>\<open>project.secretKey\<close>, with \<open>None\<close> for \<^verbatim>\<open>undefined\<close>. The routes read it only
  from a value that is not falsy.
\<close>

definition secretKeyOf :: "json_object option held \<Rightarrow> string option" where
  "secretKeyOf project =
     (case project of Value (Some obj) \<Rightarrow> obj ''secretKey'' | _ \<Rightarrow> None)"

text \<open>
  \<^verbatim>\<open>sanitizeProject\<close> returns \<^verbatim>\<open>null\<close> for a falsy argument; otherwise it destructures
  \<^verbatim>\<open>secretKey\<close> away and returns the rest, the own enumerable properties of its
  argument: none for a promise.
\<close>

definition sanitizeProject :: "json_object option held \<Rightarrow> json_object option" where
  "sanitizeProject project =
     (case project of
        Value None \<Rightarrow> None
      | Value (Some obj) \<Rightarrow> Some (obj(''secretKey'' := None))
      | Promise _ \<Rightarrow> Some Map.empty)"

text \<open>
  The exports of the data layer the project routes use. An \<^verbatim>\<open>async\<close> function runs its
  body at the call, so the file-backed store has been written when \<^verbatim>\<open>createProject\<close>
  returns; a \<^verbatim>\<open>throw\<close> of the body rejects the promise and does not reach the caller.
\<close>

definition listProjects :: "data \<Rightarrow> json_object list held" where
  "listProjects d = Promise (Inr (map project_fields (listProjectsSync d)))"

definition getProjectById :: "data \<Rightarrow> string \<Rightarrow> json_object option held" where
  "getProjectById d pid =
     Promise (Inr (map_option project_fields (getProjectByIdSync d pid)))"

definition getProjectBySecret :: "data \<Rightarrow> string option \<Rightarrow> json_object option held" where
  "getProjectBySecret d secret =
     Promise (Inr (map_option project_fields (getProjectBySecretSync d secret)))"

definition createProject ::
  "string \<Rightarrow> string \<Rightarrow> string option \<times> string option \<Rightarrow> data \<Rightarrow> json_object option held \<times> data" where
  "createProject newId now input d =
     (case createProjectSync newId now input d of
        (Inl e, d') \<Rightarrow> (Promise (Inl e), d')
      | (Inr p, d') \<Rightarrow> (Promise (Inr (Some (project_fields p))), d'))"

text \<open>
  \<^verbatim>\<open>groupItemsByStatus\<close> starts from an object with the four statuses as keys and
  pushes every item onto the array of its status, creating the array when
  \<^verbatim>\<open>columns[item.status]\<close> is undefined. Every status the data layer writes is one of
  the four; a status naming an inherited property of objects is not modelled.
\<close>

definition groupItemsByStatus :: "item list \<Rightarrow> (string \<rightharpoonup> item list)" where
  "groupItemsByStatus its =
     fold (\<lambda>it columns.
             columns(status it \<mapsto> (case columns (status it) of None \<Rightarrow> [] | Some xs \<Rightarrow> xs) @ [it]))
          its
          (fold (\<lambda>st acc. acc(st \<mapsto> [])) VALID_STATUSES Map.empty)"

text \<open>
  A response is a status code and a body. \<open>ErrorPage\<close> is the page Express sends with
  status 500 when a handler throws.
\<close>

datatype body =
    ErrorBody string
  | ProjectBody "json_object option"
  | ProjectsBody "json_object option list"
  | ErrorPage

type_synonym response = "nat \<times> body"

text \<open>
  \<^verbatim>\<open>POST /api/projects\<close>. The \<^verbatim>\<open>catch\<close> branch answers 400 with the message of an error
  thrown inside \<^verbatim>\<open>try\<close>; \<^verbatim>\<open>createProject\<close> returns a promise and throws nothing, so
  the branch is not taken.
\<close>

definition postProjects ::
  "string \<Rightarrow> string \<Rightarrow> string option \<Rightarrow> string option \<Rightarrow> data \<Rightarrow> response \<times> data" where
  "postProjects newId now nm secret d =
     (case createProject newId now (nm, secret) d of
        (project, d') \<Rightarrow> ((201, ProjectBody (sanitizeProject project)), d'))"

text \<open>\<^verbatim>\<open>POST /api/access\<close>.\<close>

definition postAccess :: "string option \<Rightarrow> data \<Rightarrow> response \<times> data" where
  "postAccess secret d =
     (let project = getProjectBySecret d secret in
      if falsy project then ((404, ErrorBody ''Invalid secret key.''), d)
      else ((200, ProjectBody (sanitizeProject project)), d))"

text \<open>
  \<^verbatim>\<open>requireProjectSecret\<close>: the header may be absent; the provided secret is
  \<^verbatim>\<open>`${req.headers['x-project-secret'] || ''}`.trim()\<close>. The result is the rejection
  sent, or the value stored in \<^verbatim>\<open>req.project\<close> for the handler of the route.
\<close>

definition requireProjectSecret ::
  "data \<Rightarrow> string \<Rightarrow> string option \<Rightarrow> response + json_object option held" where
  "requireProjectSecret d pid header =
     (let providedSecret = trim (orEmpty header);
          project = getProjectById d pid in
      if falsy project then Inl (404, ErrorBody ''Project not found.'')
      else if secretKeyOf project \<noteq> Some providedSecret
      then Inl (403, ErrorBody ''Invalid secret key for this project.'')
      else Inr project)"

text \<open>
  Every route under \<^verbatim>\<open>/api/projects/:projectId\<close> is registered as
  \<^verbatim>\<open>requireProjectSecret\<close> followed by a handler, which runs only when the middleware
  calls \<^verbatim>\<open>next()\<close>.
\<close>

definition projectRoute ::
  "(json_object option held \<Rightarrow> data \<Rightarrow> response \<times> data) \<Rightarrow>
   data \<Rightarrow> string \<Rightarrow> string option \<Rightarrow> response \<times> data" where
  "projectRoute handler d pid header =
     (case requireProjectSecret d pid header of
        Inl r \<Rightarrow> (r, d)
      | Inr project \<Rightarrow> handler project d)"

text \<open>\<^verbatim>\<open>GET /api/projects/:projectId\<close>.\<close>

definition getProject :: "data \<Rightarrow> string \<Rightarrow> string option \<Rightarrow> response \<times> data" where
  "getProject =
     projectRoute (\<lambda>project d. ((200, ProjectBody (sanitizeProject project)), d))"

text \<open>
  \<^verbatim>\<open>GET /api/projects\<close> calls \<^verbatim>\<open>listProjects().map(sanitizeProject)\<close>. A promise has no
  method \<^verbatim>\<open>map\<close>: the call throws a \<^verbatim>\<open>TypeError\<close>.
\<close>

definition getProjects :: "data \<Rightarrow> response \<times> data" where
  "getProjects d =
     (case listProjects d of
        Value ps \<Rightarrow> ((200, ProjectsBody (map (\<lambda>p. sanitizeProject (Value (Some p))) ps)), d)
      | Promise _ \<Rightarrow> ((500, ErrorPage), d))"

section \<open>Example stores\<close>

definition ex_project :: project where
  "ex_project = \<lparr>proj_id = ''p'', name = ''Board'', secretKey = ''key'', proj_createdAt = ''t0''\<rparr>"

definition ex_item :: "string \<Rightarrow> string \<Rightarrow> int \<Rightarrow> item" where
  "ex_item i st p = \<lparr>item_id = i, projectId = ''p'', title = ''T'', description = [],
     status = st, position = Some p, createdAt = ''t0'', updatedAt = ''t0''\<rparr>"

definition ex_store :: data where
  "ex_store = \<lparr>projects = [ex_project],
     items = [ex_item ''a'' ''backlog'' 1, ex_item ''b'' ''backlog'' 2, ex_item ''c'' ''done'' 5]\<rparr>"

text \<open>The content of a fresh database file, \<^verbatim>\<open>DEFAULT_DATA\<close>.\<close>

definition DEFAULT_DATA :: data where
  "DEFAULT_DATA = \<lparr>projects = [], items = []\<rparr>"

section \<open>The client's drag handler\<close>

text \<open>
  The board of the client maps a status to the cards shown in its column. A drop reported
  by the drag-and-drop library names the source column and index and, when the card was
  dropped on a column, the destination column and index.
\<close>

type_synonym board = "string \<rightharpoonup> item list"

record drop_location =
  droppableId :: string
  index :: nat

record drop_result =
  destination :: "drop_location option"
  source :: drop_location
  draggableId :: string

record client_state =
  cl_project :: "json_object option"
  cl_secretKey :: string
  cl_columns :: board
  cl_error :: string

datatype api_call = ReorderItemsCall "string option" string "string \<rightharpoonup> string list"

datatype drag_outcome = Returned | Threw | Awaiting board

text \<open>
  \<^verbatim>\<open>COLUMN_ORDER\<close> is imported from the client's constants module; the helpers take it
  as a parameter. Each builds an object with one key per status of \<^verbatim>\<open>COLUMN_ORDER\<close>.
\<close>

definition createEmptyColumns :: "string list \<Rightarrow> board" where
  "createEmptyColumns COLUMN_ORDER = fold (\<lambda>st acc. acc(st \<mapsto> [])) COLUMN_ORDER Map.empty"

definition ensureColumns :: "string list \<Rightarrow> board option \<Rightarrow> board" where
  "ensureColumns COLUMN_ORDER incoming =
     (case incoming of
        None \<Rightarrow> createEmptyColumns COLUMN_ORDER
      | Some inc \<Rightarrow>
          fold (\<lambda>st base. case inc st of Some xs \<Rightarrow> base(st \<mapsto> xs) | None \<Rightarrow> base)
               COLUMN_ORDER (createEmptyColumns COLUMN_ORDER))"

definition cloneColumns :: "string list \<Rightarrow> board \<Rightarrow> board" where
  "cloneColumns COLUMN_ORDER columns =
     fold (\<lambda>st cloned. cloned(st \<mapsto> (case columns st of None \<Rightarrow> [] | Some xs \<Rightarrow> xs)))
          COLUMN_ORDER Map.empty"

definition columnsToIds :: "string list \<Rightarrow> board \<Rightarrow> (string \<rightharpoonup> string list)" where
  "columnsToIds COLUMN_ORDER columns =
     fold (\<lambda>st acc. acc(st \<mapsto> map item_id (case columns st of None \<Rightarrow> [] | Some xs \<Rightarrow> xs)))
          COLUMN_ORDER Map.empty"

text \<open>
  \<^verbatim>\<open>handleDragEnd\<close> up to its first \<^verbatim>\<open>await\<close>: the outcome, the state after the
  synchronous part and the requests issued. Reading a column that the cloned board does
  not have is a \<^verbatim>\<open>TypeError\<close> on \<^verbatim>\<open>.splice\<close>; \<^verbatim>\<open>splice(i, 1)\<close> beyond the
  end removes nothing, so \<^verbatim>\<open>moved\<close> is undefined and the handler returns.
\<close>

definition handleDragEnd ::
  "string list \<Rightarrow> client_state \<Rightarrow> drop_result \<Rightarrow> drag_outcome \<times> client_state \<times> api_call list" where
  "handleDragEnd COLUMN_ORDER st result =
     (case cl_project st of
        None \<Rightarrow> (Returned, st, [])
      | Some proj \<Rightarrow>
         if cl_secretKey st = [] then (Returned, st, [])
         else (case destination result of
            None \<Rightarrow> (Returned, st, [])
          | Some dest \<Rightarrow>
             if droppableId dest = droppableId (source result) \<and> index dest = index (source result)
             then (Returned, st, [])
             else
              (let activeColumns = ensureColumns COLUMN_ORDER (Some (cl_columns st));
                   previous = cloneColumns COLUMN_ORDER activeColumns;
                   optimistic = cloneColumns COLUMN_ORDER activeColumns
               in case optimistic (droppableId (source result)) of
                    None \<Rightarrow> (Threw, st, [])
                  | Some sourceItems \<Rightarrow>
                     if length sourceItems \<le> index (source result) then (Returned, st, [])
                     else
                      (let moved = (sourceItems ! index (source result))\<lparr>status := droppableId dest\<rparr>;
                           optimistic1 = optimistic(droppableId (source result) \<mapsto>
                                            splice1 (index (source result)) sourceItems)
                       in case optimistic1 (droppableId dest) of
                            None \<Rightarrow> (Threw, st, [])
                          | Some destItems \<Rightarrow>
                             (let optimistic2 = optimistic1(droppableId dest \<mapsto>
                                     take (index dest) destItems @ [moved] @ drop (index dest) destItems)
                              in (Awaiting previous,
                                  st\<lparr>cl_columns := optimistic2, cl_error := []\<rparr>,
                                  [ReorderItemsCall (proj ''id'') (cl_secretKey st)
                                     (columnsToIds COLUMN_ORDER optimistic2)]))))))"

definition ex_client :: client_state where
  "ex_client = \<lparr>cl_project = Some [''id'' \<mapsto> ''p'', ''name'' \<mapsto> ''Board''],
                 cl_secretKey = ''key'',
                 cl_columns = [''backlog'' \<mapsto> [ex_item ''a'' ''backlog'' 1, ex_item ''b'' ''backlog'' 2]],
                 cl_error = []\<rparr>"

definition ex_drop :: "string \<Rightarrow> nat \<Rightarrow> string \<Rightarrow> nat \<Rightarrow> drop_result" where
  "ex_drop s i t j = \<lparr>destination = Some \<lparr>droppableId = t, index = j\<rparr>,
                      source = \<lparr>droppableId = s, index = i\<rparr>, draggableId = ''a''\<rparr>"

section \<open>Notions for stating the effect of a reorder\<close>

text \<open>
  The writes a request asks for, in the order the two loops perform them: the status of
  the column, the index in its sequence and the identifier found there.
\<close>

definition writes :: "(string \<rightharpoonup> string list) \<Rightarrow> (string \<times> nat \<times> string) list" where
  "writes columns =
     concat (map (\<lambda>st. map (Pair st) (enumerate 0 (orderedIds columns st))) VALID_STATUSES)"

text \<open>What one write does to the item it finds.\<close>

definition stamp :: "(string \<Rightarrow> nat \<Rightarrow> string) \<Rightarrow> string \<times> nat \<times> string \<Rightarrow> item \<Rightarrow> item" where
  "stamp clock w it =
     it\<lparr>status := fst w, position := Some (int (fst (snd w)) + 1),
        updatedAt := clock (fst w) (fst (snd w))\<rparr>"

text \<open>A write hits the item at index \<open>j\<close> when the search of the callback finds it there.\<close>

definition hits :: "string \<Rightarrow> item list \<Rightarrow> nat \<Rightarrow> string \<times> nat \<times> string \<Rightarrow> bool" where
  "hits pid its j w \<longleftrightarrow>
     findIndex (\<lambda>i. item_id i = snd (snd w) \<and> projectId i = pid) its = Some j"

text \<open>
  Two boards are compared up to the update stamps of their items, which record when a
  request ran and not what it asked for.
\<close>

definition forgetStamp :: "item \<Rightarrow> item" where
  "forgetStamp i = i\<lparr>updatedAt := []\<rparr>"

definition boardView :: "(string \<rightharpoonup> item list) \<Rightarrow> (string \<rightharpoonup> item list)" where
  "boardView columns = (\<lambda>st. map_option (map forgetStamp) (columns st))"

text \<open>The fields the search of the reorder callback reads; no write changes them.\<close>

definition keys :: "item list \<Rightarrow> (string \<times> string) list" where
  "keys its = map (\<lambda>i. (item_id i, projectId i)) its"

text \<open>A request whose first identifier matches no item.\<close>

definition ex_gap_columns :: "string \<rightharpoonup> string list" where
  "ex_gap_columns = [''backlog'' \<mapsto> [''zz'', ''b'', ''a'']]"

section \<open>Notions for stating the ordering claims\<close>

text \<open>
  A request names every item of the project once: no identifier occurs twice in its four
  sequences, the items of the project have pairwise different identifiers, and the
  identifiers named are exactly those of the project's items.
\<close>

definition namesEveryItemOnce :: "string \<Rightarrow> (string \<rightharpoonup> string list) \<Rightarrow> item list \<Rightarrow> bool" where
  "namesEveryItemOnce pid columns its \<longleftrightarrow>
     distinct (payload columns) \<and>
     distinct (map item_id (filter (\<lambda>i. projectId i = pid) its)) \<and>
     set (payload columns) = set (map item_id (filter (\<lambda>i. projectId i = pid) its))"

text \<open>
  No two items of the same project and status have the same position, positions being read
  as the sort reads them.
\<close>

definition uniquePositions :: "data \<Rightarrow> bool" where
  "uniquePositions d \<longleftrightarrow> distinct (map (\<lambda>i. (projectId i, status i, pos0 i)) (items d))"

text \<open>
  A board reached from the empty store: one project and two cards created in its backlog.
\<close>

definition ex_title :: "string \<Rightarrow> item_input" where
  "ex_title t = \<lparr>in_title = Some t, in_description = None, in_status = None\<rparr>"

definition ex_board :: data where
  "ex_board =
     snd (createItemSync ''b'' ''t2'' ''t2'' ''p'' (ex_title ''Task 2'')
       (snd (createItemSync ''a'' ''t1'' ''t1'' ''p'' (ex_title ''Task 1'')
         (snd (createProjectSync ''p'' ''t0'' (Some ''Ordering Board'', Some ''order-me'')
                DEFAULT_DATA)))))"

definition ex_partial_columns :: "string \<rightharpoonup> string list" where
  "ex_partial_columns = [''backlog'' \<mapsto> [''b'']]"

definition ex_full_columns :: "string \<rightharpoonup> string list" where
  "ex_full_columns = [''backlog'' \<mapsto> [''b''], ''in_progress'' \<mapsto> [''c'', ''a'']]"

definition ex_twice_columns :: "string \<rightharpoonup> string list" where
  "ex_twice_columns = [''backlog'' \<mapsto> [''a''], ''done'' \<mapsto> [''a'']]"

section \<open>The Postgres data layer: bulk reorder\<close>

text \<open>
  With \<^verbatim>\<open>DATABASE_URL\<close> set the items live in a table whose columns \<^verbatim>\<open>id\<close> and
  \<^verbatim>\<open>project_id\<close> have type \<^verbatim>\<open>UUID\<close>. A query parameter compared with such a column is
  read as a UUID, and a text that is not one makes the statement fail. The input syntax
  is the one of PostgreSQL: thirty-two hexadecimal digits in either case, with an optional
  hyphen after any group of four digits, the whole optionally in braces. A UUID is
  modelled as its sixteen bytes.
\<close>

definition hexDigit :: "char \<Rightarrow> nat option" where
  "hexDigit c = map_of (zip ''0123456789abcdef'' [0..<16] @ zip ''ABCDEF'' [10..<16]) c"

fun uuidBytes :: "nat \<Rightarrow> nat \<Rightarrow> string \<Rightarrow> (nat list \<times> string) option" where
  "uuidBytes 0 i src = Some ([], src)"
| "uuidBytes (Suc n) i (a # b # rest) =
     (case (hexDigit a, hexDigit b) of
        (Some x, Some y) \<Rightarrow>
          (case uuidBytes n (Suc i)
                  (if i mod 2 = 1 \<and> i < 15 \<and> take 1 rest = ''-'' then drop 1 rest else rest) of
             None \<Rightarrow> None
           | Some (bytes, src) \<Rightarrow> Some ((16 * x + y) # bytes, src))
      | _ \<Rightarrow> None)"
| "uuidBytes (Suc n) i src = None"

definition uuid_in :: "string \<Rightarrow> nat list option" where
  "uuid_in str =
     (let braces = (take 1 str = ''{'') in
      case uuidBytes 16 0 (if braces then drop 1 str else str) of
        None \<Rightarrow> None
      | Some (bytes, rest) \<Rightarrow> if rest = (if braces then ''}'' else []) then Some bytes else None)"

text \<open>
  What the Postgres functions can raise: an error thrown by the code of the data layer,
  or the failure of a statement whose parameter is not a UUID
  (\<^verbatim>\<open>invalid input syntax for type uuid\<close>).
\<close>

datatype pg_error = Thrown error | InvalidUuidSyntax string

text \<open>
  A generic loop whose body may fail: the first failure leaves the loop, as a rejected
  \<^verbatim>\<open>await\<close> inside \<^verbatim>\<open>for\<close> does.
\<close>

fun foldE :: "('a \<Rightarrow> 's \<Rightarrow> 'e + 's) \<Rightarrow> 'a list \<Rightarrow> 's \<Rightarrow> 'e + 's" where
  "foldE f [] s = Inr s"
| "foldE f (x # xs) s = (case f x s of Inl e \<Rightarrow> Inl e | Inr s' \<Rightarrow> foldE f xs s')"

text \<open>
  The rows of the table \<^verbatim>\<open>items\<close> are item records whose identifiers are the texts the
  database prints. The statement
  \<^verbatim>\<open>UPDATE items SET status = $1, position = $2, updated_at = NOW() WHERE id = $3 AND project_id = $4\<close>
  with the parameters \<^verbatim>\<open>[status, index + 1, itemId, projectId]\<close>; the project
  identifier has been read as a UUID by the statement before the loop, and \<^verbatim>\<open>NOW()\<close> is
  the time at which the transaction began.
\<close>

definition updateRow ::
  "nat list \<Rightarrow> string \<Rightarrow> string \<Rightarrow> nat \<times> string \<Rightarrow> item list \<Rightarrow> pg_error + item list" where
  "updateRow project st now ix rows =
     (case uuid_in (snd ix) of
        None \<Rightarrow> Inl (InvalidUuidSyntax (snd ix))
      | Some u \<Rightarrow>
          Inr (map (\<lambda>r. if uuid_in (item_id r) = Some u \<and> uuid_in (projectId r) = Some project
                        then r\<lparr>status := st, position := Some (int (fst ix) + 1), updatedAt := now\<rparr>
                        else r)
                   rows))"

text \<open>
  \<^verbatim>\<open>getItemsByProject\<close> of the Postgres branch, for a project identifier that has been
  read as a UUID: the rows of the project, sorted by \<^verbatim>\<open>sortItems\<close>.
\<close>

definition getItemsByProject :: "nat list \<Rightarrow> data \<Rightarrow> item list" where
  "getItemsByProject project d =
     sortItems (filter (\<lambda>r. uuid_in (projectId r) = Some project) (items d))"

text \<open>
  \<^verbatim>\<open>reorderItems\<close> of the Postgres branch, as the state of the database it leaves and
  what its promise settles to. The statements run between \<^verbatim>\<open>BEGIN\<close> and \<^verbatim>\<open>COMMIT\<close>;
  an error raised in between is caught, the transaction is rolled back, which restores
  the state before \<^verbatim>\<open>BEGIN\<close>, and the error is thrown again.
\<close>

definition reorderItems ::
  "string \<Rightarrow> string \<Rightarrow> (string \<rightharpoonup> string list) \<Rightarrow> data \<Rightarrow> (pg_error + item list) \<times> data" where
  "reorderItems now pid columns d =
     (case uuid_in pid of
        None \<Rightarrow> (Inl (InvalidUuidSyntax pid), d)
      | Some project \<Rightarrow>
          if \<not> list_ex (\<lambda>p. uuid_in (proj_id p) = Some project) (projects d)
          then (Inl (Thrown ProjectNotFound), d)
          else
            (case foldE (\<lambda>st. foldE (updateRow project st now) (enumerate 0 (orderedIds columns st)))
                        VALID_STATUSES (items d) of
               Inl e \<Rightarrow> (Inl e, d)
             | Inr rows \<Rightarrow>
                 (let d' = d\<lparr>items := rows\<rparr> in (Inr (getItemsByProject project d'), d'))))"

text \<open>
  The last write of a request, in the order of the loops, whose identifier satisfies a
  test; \<open>None\<close> when no write does.
\<close>

definition lastWrite ::
  "(string \<Rightarrow> bool) \<Rightarrow> (string \<rightharpoonup> string list) \<Rightarrow> (string \<times> nat \<times> string) option" where
  "lastWrite P columns =
     (case filter (\<lambda>w. P (snd (snd w))) (writes columns) of
        [] \<Rightarrow> None
      | w # ws \<Rightarrow> Some (last (w # ws)))"

text \<open>A write of the Postgres loop changes a row when both comparisons of its statement hold.\<close>

definition changes :: "nat list \<Rightarrow> item \<Rightarrow> string \<times> nat \<times> string \<Rightarrow> bool" where
  "changes project r w \<longleftrightarrow>
     uuid_in (snd (snd w)) \<noteq> None \<and> uuid_in (item_id r) = uuid_in (snd (snd w)) \<and>
     uuid_in (projectId r) = Some project"

text \<open>
  A database with one project and three items, and two requests for its backlog column:
  in the first the leading identifier is a UUID that no row has, in the second it is the
  text \<open>zz\<close>.
\<close>

definition ex_uuid :: "char \<Rightarrow> string" where
  "ex_uuid c = replicate 8 c @ ''-'' @ replicate 4 c @ ''-'' @ replicate 4 c @ ''-'' @
               replicate 4 c @ ''-'' @ replicate 12 c"

definition ex_row :: "char \<Rightarrow> string \<Rightarrow> int \<Rightarrow> item" where
  "ex_row c st p = \<lparr>item_id = ex_uuid c, projectId = ex_uuid CHR ''1'', title = ''T'',
     description = [], status = st, position = Some p, createdAt = ''t0'', updatedAt = ''t0''\<rparr>"

definition ex_database :: data where
  "ex_database =
     \<lparr>projects = [\<lparr>proj_id = ex_uuid CHR ''1'', name = ''Board'', secretKey = ''key'',
                    proj_createdAt = ''t0''\<rparr>],
      items = [ex_row CHR ''a'' ''backlog'' 1, ex_row CHR ''b'' ''backlog'' 2,
               ex_row CHR ''c'' ''done'' 5]\<rparr>"

definition ex_uuid_columns :: "string \<rightharpoonup> string list" where
  "ex_uuid_columns = [''backlog'' \<mapsto> [ex_uuid CHR ''f'', ex_uuid CHR ''b'', ex_uuid CHR ''a'']]"

definition ex_text_columns :: "string \<rightharpoonup> string list" where
  "ex_text_columns = [''backlog'' \<mapsto> [''zz'', ex_uuid CHR ''b'', ex_uuid CHR ''a'']]"

section \<open>Basic facts about the helpers\<close>

lemma Math_max_Max: "xs \<noteq> [] \<Longrightarrow> Math_max xs = Max (set xs)"
proof (cases xs)
  case (Cons a list)
  then show ?thesis using Max.set_eq_fold[of a list] by (simp add: Math_max_def)
qed simp

lemma nextPositionForStatus_rule:
  "nextPositionForStatus d pid st =
     (let col = filter (\<lambda>i. projectId i = pid \<and> status i = st) (items d)
      in if col = [] then 1 else Max (set (map pos0 col)) + 1)"
  by (simp add: nextPositionForStatus_def Let_def Math_max_Max)

lemma findIndex_Some_less: "findIndex P xs = Some j \<Longrightarrow> j < length xs \<and> P (xs ! j)"
  by (induction xs arbitrary: j) (auto split: if_splits)

lemma createItemSync_Inr:
  assumes "createItemSync newId t1 t2 pid inp d = (Inr it, d')"
  shows "projectId it = pid
     \<and> status it = (case in_status inp of None \<Rightarrow> ''backlog'' | Some s \<Rightarrow> s)
     \<and> status it \<in> set VALID_STATUSES
     \<and> item_id it = newId
     \<and> position it = Some (nextPositionForStatus d pid (status it))
     \<and> items d' = items d @ [it] \<and> projects d' = projects d"
  using assms
  by (auto simp: createItemSync_def Let_def validateStatus_def split: if_splits option.splits)

lemma updateItemSync_Inr:
  assumes "updateItemSync now pid itemId upd d = (Inr it', d')"
  shows "\<exists>j. findIndex (\<lambda>i. item_id i = itemId \<and> projectId i = pid) (items d) = Some j
     \<and> items d' = (items d)[j := it'] \<and> projects d' = projects d
     \<and> item_id it' = item_id (items d ! j) \<and> projectId it' = projectId (items d ! j)
     \<and> (case in_status upd of
           None \<Rightarrow> status it' = status (items d ! j) \<and> position it' = position (items d ! j)
         | Some s \<Rightarrow> s \<in> set VALID_STATUSES \<and> status it' = s \<and>
             (if s \<noteq> status (items d ! j)
              then position it' = Some (nextPositionForStatus d pid s)
              else position it' = position (items d ! j)))"
  using assms
  by (auto simp: updateItemSync_def Let_def validateStatus_def
           split: if_splits option.splits sum.splits)

section \<open>Positions given by creation and by a single update\<close>

text \<open>
  Claim C3. A successful creation gives the new item the requested project and status
  (\<^verbatim>\<open>'backlog'\<close> by default) and the position 1 when the project has no item of that
  status, otherwise one more than the greatest position (read through \<^verbatim>\<open>?? 0\<close>) of
  the items of that project and status; the item is appended to the store. A successful
  update replaces exactly the item found, so every other item, in the source column as
  anywhere else, keeps all its fields. When the update names a status different from the
  item's, the item gets that status and a position by the same rule over the destination
  column; when it names no status, or the item's own, status and position stay as they were.
\<close>

theorem position_rule_create_update:
  "(createItemSync newId t1 t2 pid inp d = (Inr it, d') \<longrightarrow>
      projectId it = pid \<and>
      status it = (case in_status inp of None \<Rightarrow> ''backlog'' | Some s \<Rightarrow> s) \<and>
      position it =
        Some (let col = filter (\<lambda>i. projectId i = pid \<and> status i = status it) (items d)
              in if col = [] then 1 else Max (set (map pos0 col)) + 1) \<and>
      items d' = items d @ [it])
   \<and> (updateItemSync now pid itemId upd d = (Inr it', d2) \<longrightarrow>
        (\<exists>j < length (items d).
           findIndex (\<lambda>i. item_id i = itemId \<and> projectId i = pid) (items d) = Some j \<and>
           items d2 = (items d)[j := it'] \<and>
           (\<forall>s. in_status upd = Some s \<and> s \<noteq> status (items d ! j) \<longrightarrow>
              status it' = s \<and>
              position it' =
                Some (let col = filter (\<lambda>i. projectId i = pid \<and> status i = s) (items d)
                      in if col = [] then 1 else Max (set (map pos0 col)) + 1)) \<and>
           (in_status upd = None \<or> in_status upd = Some (status (items d ! j)) \<longrightarrow>
              status it' = status (items d ! j) \<and> position it' = position (items d ! j))))"
proof (intro conjI impI)
  assume c: "createItemSync newId t1 t2 pid inp d = (Inr it, d')"
  from createItemSync_Inr[OF c] show "projectId it = pid" by simp
  from createItemSync_Inr[OF c]
  show "status it = (case in_status inp of None \<Rightarrow> ''backlog'' | Some s \<Rightarrow> s)" by simp
  from createItemSync_Inr[OF c]
  show "position it =
        Some (let col = filter (\<lambda>i. projectId i = pid \<and> status i = status it) (items d)
              in if col = [] then 1 else Max (set (map pos0 col)) + 1)"
    by (simp add: nextPositionForStatus_rule)
  from createItemSync_Inr[OF c] show "items d' = items d @ [it]" by simp
next
  assume u: "updateItemSync now pid itemId upd d = (Inr it', d2)"
  from updateItemSync_Inr[OF u] obtain j where
    j: "findIndex (\<lambda>i. item_id i = itemId \<and> projectId i = pid) (items d) = Some j"
    and rest: "items d2 = (items d)[j := it']"
      "(case in_status upd of
           None \<Rightarrow> status it' = status (items d ! j) \<and> position it' = position (items d ! j)
         | Some s \<Rightarrow> s \<in> set VALID_STATUSES \<and> status it' = s \<and>
             (if s \<noteq> status (items d ! j)
              then position it' = Some (nextPositionForStatus d pid s)
              else position it' = position (items d ! j)))"
    by blast
  have "j < length (items d)" using findIndex_Some_less[OF j] by simp
  moreover have "\<forall>s. in_status upd = Some s \<and> s \<noteq> status (items d ! j) \<longrightarrow>
              status it' = s \<and>
              position it' =
                Some (let col = filter (\<lambda>i. projectId i = pid \<and> status i = s) (items d)
                      in if col = [] then 1 else Max (set (map pos0 col)) + 1)"
    using rest(2) by (auto simp: nextPositionForStatus_rule)
  moreover have "in_status upd = None \<or> in_status upd = Some (status (items d ! j)) \<longrightarrow>
              status it' = status (items d ! j) \<and> position it' = position (items d ! j)"
    using rest(2) by auto
  ultimately show "\<exists>j < length (items d).
           findIndex (\<lambda>i. item_id i = itemId \<and> projectId i = pid) (items d) = Some j \<and>
           items d2 = (items d)[j := it'] \<and>
           (\<forall>s. in_status upd = Some s \<and> s \<noteq> status (items d ! j) \<longrightarrow>
              status it' = s \<and>
              position it' =
                Some (let col = filter (\<lambda>i. projectId i = pid \<and> status i = s) (items d)
                      in if col = [] then 1 else Max (set (map pos0 col)) + 1)) \<and>
           (in_status upd = None \<or> in_status upd = Some (status (items d ! j)) \<longrightarrow>
              status it' = status (items d ! j) \<and> position it' = position (items d ! j))"
    using j rest(1) by blast
qed

theorem position_rule_create_update_witness:
  "createItemSync ''n'' ''t1'' ''t1'' ''p''
      \<lparr>in_title = Some ''N'', in_description = None, in_status = Some ''done''\<rparr> ex_store
     = (Inr ((ex_item ''n'' ''done'' 6)\<lparr>title := ''N'', createdAt := ''t1'', updatedAt := ''t1''\<rparr>),
        ex_store\<lparr>items := items ex_store @
           [(ex_item ''n'' ''done'' 6)\<lparr>title := ''N'', createdAt := ''t1'', updatedAt := ''t1''\<rparr>]\<rparr>)
   \<and> Max (set (map pos0 (filter (\<lambda>i. projectId i = ''p'' \<and> status i = ''done'')
                                  (items ex_store)))) + 1 = 6
   \<and> updateItemSync ''t2'' ''p'' ''a''
      \<lparr>in_title = None, in_description = None, in_status = Some ''done''\<rparr> ex_store
     = (Inr ((ex_item ''a'' ''done'' 6)\<lparr>updatedAt := ''t2''\<rparr>),
        ex_store\<lparr>items := (items ex_store)[0 := (ex_item ''a'' ''done'' 6)\<lparr>updatedAt := ''t2''\<rparr>]\<rparr>)
   \<and> findIndex (\<lambda>i. item_id i = ''a'' \<and> projectId i = ''p'') (items ex_store) = Some 0
   \<and> status (items ex_store ! 0) = ''backlog''
   \<and> updateItemSync ''t2'' ''p'' ''b''
      \<lparr>in_title = Some '' Renamed '', in_description = None, in_status = None\<rparr> ex_store
     = (Inr ((ex_item ''b'' ''backlog'' 2)\<lparr>title := ''Renamed'', updatedAt := ''t2''\<rparr>),
        ex_store\<lparr>items := (items ex_store)
           [1 := (ex_item ''b'' ''backlog'' 2)\<lparr>title := ''Renamed'', updatedAt := ''t2''\<rparr>]\<rparr>)
   \<and> findIndex (\<lambda>i. item_id i = ''b'' \<and> projectId i = ''p'') (items ex_store) = Some 1
   \<and> position ((ex_item ''b'' ''backlog'' 2)\<lparr>title := ''Renamed'', updatedAt := ''t2''\<rparr>)
       = position (items ex_store ! 1)"
proof -
  let ?inp = "\<lparr>in_title = Some ''N'', in_description = None, in_status = Some ''done''\<rparr>"
  let ?new = "(ex_item ''n'' ''done'' 6)\<lparr>title := ''N'', createdAt := ''t1'', updatedAt := ''t1''\<rparr>"
  let ?upd = "\<lparr>in_title = None, in_description = None, in_status = Some ''done''\<rparr>"
  let ?moved = "(ex_item ''a'' ''done'' 6)\<lparr>updatedAt := ''t2''\<rparr>"
  let ?ren = "\<lparr>in_title = Some '' Renamed '', in_description = None, in_status = None\<rparr>"
  let ?renamed = "(ex_item ''b'' ''backlog'' 2)\<lparr>title := ''Renamed'', updatedAt := ''t2''\<rparr>"
  have c: "createItemSync ''n'' ''t1'' ''t1'' ''p'' ?inp ex_store
     = (Inr ?new, ex_store\<lparr>items := items ex_store @ [?new]\<rparr>)"
    by code_simp
  have u: "updateItemSync ''t2'' ''p'' ''a'' ?upd ex_store
     = (Inr ?moved, ex_store\<lparr>items := (items ex_store)[0 := ?moved]\<rparr>)"
    by code_simp
  have r: "updateItemSync ''t2'' ''p'' ''b'' ?ren ex_store
     = (Inr ?renamed, ex_store\<lparr>items := (items ex_store)[1 := ?renamed]\<rparr>)"
    by code_simp
  have nonempty: "filter (\<lambda>i. projectId i = ''p'' \<and> status i = ''done'') (items ex_store) \<noteq> []"
    by code_simp
  have f: "findIndex (\<lambda>i. item_id i = ''a'' \<and> projectId i = ''p'') (items ex_store) = Some 0"
    by code_simp
  have g: "findIndex (\<lambda>i. item_id i = ''b'' \<and> projectId i = ''p'') (items ex_store) = Some 1"
    by code_simp
  have s: "status (items ex_store ! 0) = ''backlog''"
    by code_simp
  have "position ?new
       = Some (let col = filter (\<lambda>i. projectId i = ''p'' \<and> status i = ''done'') (items ex_store)
              in if col = [] then 1 else Max (set (map pos0 col)) + 1)"
    using position_rule_create_update[where newId = "''n''" and ?t1.0 = "''t1''" and ?t2.0 = "''t1''"
        and pid = "''p''" and inp = ?inp and d = ex_store and it = ?new
        and d' = "ex_store\<lparr>items := items ex_store @ [?new]\<rparr>"] c
    by (simp add: ex_item_def)
  then have m: "Max (set (map pos0 (filter (\<lambda>i. projectId i = ''p'' \<and> status i = ''done'')
                                  (items ex_store)))) + 1 = 6"
    using nonempty by (simp add: ex_item_def Let_def)
  have "\<exists>j<length (items ex_store).
      findIndex (\<lambda>i. item_id i = ''a'' \<and> projectId i = ''p'') (items ex_store) = Some j \<and>
      (\<forall>s. in_status ?upd = Some s \<and> s \<noteq> status (items ex_store ! j) \<longrightarrow> status ?moved = s)"
    using position_rule_create_update[where now = "''t2''" and pid = "''p''" and itemId = "''a''"
        and upd = ?upd and d = ex_store and it' = ?moved
        and ?d2.0 = "ex_store\<lparr>items := (items ex_store)[0 := ?moved]\<rparr>"] u
    by blast
  have "\<exists>j<length (items ex_store).
      findIndex (\<lambda>i. item_id i = ''b'' \<and> projectId i = ''p'') (items ex_store) = Some j \<and>
      (in_status ?ren = None \<or> in_status ?ren = Some (status (items ex_store ! j)) \<longrightarrow>
         position ?renamed = position (items ex_store ! j))"
    using position_rule_create_update[where now = "''t2''" and pid = "''p''" and itemId = "''b''"
        and upd = ?ren and d = ex_store and it' = ?renamed
        and ?d2.0 = "ex_store\<lparr>items := (items ex_store)[1 := ?renamed]\<rparr>"] r
    by blast
  then have k: "position ?renamed = position (items ex_store ! 1)"
    using g by auto
  from c m u f s r g k show ?thesis by blast
qed

section \<open>Access control of the project routes\<close>

lemma getProjectById_truthy: "\<not> falsy (getProjectById d pid)"
  by (simp add: falsy_def getProjectById_def)

lemma getProjectById_no_secret: "secretKeyOf (getProjectById d pid) = None"
  by (simp add: secretKeyOf_def getProjectById_def)

lemma requireProjectSecret_forbids:
  "requireProjectSecret d pid hdr = Inl (403, ErrorBody ''Invalid secret key for this project.'')"
  by (simp add: requireProjectSecret_def Let_def getProjectById_truthy getProjectById_no_secret)

text \<open>
  Claim C5. The middleware of the project routes tests the promise that
  \<^verbatim>\<open>getProjectById\<close> returns, not the project: the promise is truthy, so the branch that
  answers 404 is never taken, and its \<^verbatim>\<open>secretKey\<close> is undefined, so the comparison with
  the provided secret fails. Every request under \<^verbatim>\<open>/api/projects/:projectId\<close> is answered
  403 with the store untouched, whatever the store, the identifier, the header and the
  handler of the route; in particular a request for the identifier \<open>q\<close>, which no project
  of the example store has, is answered 403 and not 404.
\<close>

theorem unknown_project_answered_403:
  "requireProjectSecret d pid hdr = Inl (403, ErrorBody ''Invalid secret key for this project.'')
   \<and> projectRoute handler d pid hdr = ((403, ErrorBody ''Invalid secret key for this project.''), d)
   \<and> getProjectByIdSync ex_store ''q'' = None
   \<and> getProject ex_store ''q'' (Some ''key'')
        = ((403, ErrorBody ''Invalid secret key for this project.''), ex_store)"
proof -
  have "getProjectByIdSync ex_store ''q'' = None" by code_simp
  then show ?thesis
    by (simp add: projectRoute_def getProject_def requireProjectSecret_forbids)
qed

text \<open>
  Claim C6. The example store holds the project \<open>p\<close> with the secret \<open>key\<close>. A request
  for \<open>p\<close> that presents exactly \<open>key\<close> in the header is denied with 403: the value
  compared with the trimmed header is the \<^verbatim>\<open>secretKey\<close> of a promise, which is undefined
  and equal to no string.
\<close>

theorem stored_secret_is_denied:
  "getProjectByIdSync ex_store ''p'' = Some ex_project
   \<and> secretKey ex_project = ''key''
   \<and> trim (orEmpty (Some ''key'')) = ''key''
   \<and> requireProjectSecret ex_store ''p'' (Some ''key'')
        = Inl (403, ErrorBody ''Invalid secret key for this project.'')
   \<and> getProject ex_store ''p'' (Some ''key'')
        = ((403, ErrorBody ''Invalid secret key for this project.''), ex_store)"
proof -
  have a: "getProjectByIdSync ex_store ''p'' = Some ex_project" by code_simp
  have b: "secretKey ex_project = ''key''" by (simp add: ex_project_def)
  have c: "trim (orEmpty (Some ''key'')) = ''key''" by code_simp
  have e: "requireProjectSecret ex_store ''p'' (Some ''key'')
        = Inl (403, ErrorBody ''Invalid secret key for this project.'')"
    by (simp add: requireProjectSecret_def Let_def getProjectById_truthy getProjectById_no_secret)
  have f: "getProject ex_store ''p'' (Some ''key'')
        = ((403, ErrorBody ''Invalid secret key for this project.''), ex_store)"
    by (simp add: getProject_def projectRoute_def e)
  from a b c e f show ?thesis by blast
qed

section \<open>Project objects in responses\<close>

text \<open>
  On a plain object \<^verbatim>\<open>sanitizeProject\<close> removes the field \<^verbatim>\<open>secretKey\<close> and keeps every
  other field with its value; of a stored project the fields \<^verbatim>\<open>id\<close>, \<^verbatim>\<open>name\<close> and
  \<^verbatim>\<open>createdAt\<close> remain.
\<close>

lemma sanitizeProject_object:
  "\<exists>r. sanitizeProject (Value (Some obj)) = Some r \<and> r ''secretKey'' = None \<and>
       (\<forall>k. k \<noteq> ''secretKey'' \<longrightarrow> r k = obj k)"
  by (simp add: sanitizeProject_def)

lemma sanitized_stored_project:
  "\<exists>obj. sanitizeProject (Value (Some (project_fields p))) = Some obj \<and> obj ''secretKey'' = None \<and>
         obj ''id'' = Some (proj_id p) \<and> obj ''name'' = Some (name p) \<and>
         obj ''createdAt'' = Some (proj_createdAt p) \<and>
         dom obj = {''id'', ''name'', ''createdAt''}"
  by (auto simp: sanitizeProject_def project_fields_def dom_def)

lemma sanitizeProject_promise: "sanitizeProject (Promise r) = Some Map.empty"
  by (simp add: sanitizeProject_def)

lemma find_Some_mem: "List.find P xs = Some x \<Longrightarrow> x \<in> set xs \<and> P x"
  by (auto simp: find_Some_iff)

lemma createProjectSync_Inr:
  "createProjectSync newId now inp d = (Inr p, d') \<Longrightarrow>
   projects d' = projects d @ [p] \<and> items d' = items d \<and> proj_id p = newId \<and>
   name p = trim (orEmpty (fst inp)) \<and> secretKey p = trim (orEmpty (snd inp)) \<and>
   secretKey p \<noteq> [] \<and> secretKey p \<notin> secretKey ` set (projects d)"
  by (auto simp: createProjectSync_def Let_def find_None_iff split: if_splits option.splits)

lemma createProjectSync_Inl:
  "createProjectSync newId now inp d = (Inl e, d') \<Longrightarrow> d' = d"
  by (auto simp: createProjectSync_def Let_def split: if_splits option.splits)

lemma postProjects_answer:
  "fst (postProjects newId now nm secret d) = (201, ProjectBody (Some Map.empty))"
  by (simp add: postProjects_def createProject_def sanitizeProject_def
           split: prod.splits sum.splits)

text \<open>
  Claim C7. The routes hand \<^verbatim>\<open>sanitizeProject\<close> the promise of the data layer. Creating
  the project \<open>Test Project\<close> with the secret \<open>super-secret\<close> in a fresh store writes the
  project and answers 201 with a project object that has no field at all: the secret is
  absent, and so are \<^verbatim>\<open>id\<close>, \<^verbatim>\<open>name\<close> and \<^verbatim>\<open>createdAt\<close>. Access by the secret of the
  example store answers 200 with the same empty object, the fetch of the project with its
  own secret is answered 403, and the listing ends in the error page with status 500.
\<close>

theorem created_project_answer_has_no_fields:
  "postProjects ''n'' ''t'' (Some ''Test Project'') (Some ''super-secret'') DEFAULT_DATA
     = ((201, ProjectBody (Some Map.empty)),
        \<lparr>projects = [\<lparr>proj_id = ''n'', name = ''Test Project'', secretKey = ''super-secret'',
                       proj_createdAt = ''t''\<rparr>],
         items = []\<rparr>)
   \<and> postAccess (Some ''key'') ex_store = ((200, ProjectBody (Some Map.empty)), ex_store)
   \<and> getProjectBySecretSync ex_store (Some ''key'') = Some ex_project
   \<and> fst (getProject ex_store ''p'' (Some ''key''))
       = (403, ErrorBody ''Invalid secret key for this project.'')
   \<and> getProjects ex_store = ((500, ErrorPage), ex_store)"
proof -
  have s: "snd (createProjectSync ''n'' ''t'' (Some ''Test Project'', Some ''super-secret'') DEFAULT_DATA)
     = \<lparr>projects = [\<lparr>proj_id = ''n'', name = ''Test Project'', secretKey = ''super-secret'',
                       proj_createdAt = ''t''\<rparr>],
         items = []\<rparr>"
    by code_simp
  have "snd (postProjects ''n'' ''t'' (Some ''Test Project'') (Some ''super-secret'') DEFAULT_DATA)
     = snd (createProjectSync ''n'' ''t'' (Some ''Test Project'', Some ''super-secret'') DEFAULT_DATA)"
    by (simp add: postProjects_def createProject_def split: prod.splits sum.splits)
  with s have a: "postProjects ''n'' ''t'' (Some ''Test Project'') (Some ''super-secret'') DEFAULT_DATA
     = ((201, ProjectBody (Some Map.empty)),
        \<lparr>projects = [\<lparr>proj_id = ''n'', name = ''Test Project'', secretKey = ''super-secret'',
                       proj_createdAt = ''t''\<rparr>],
         items = []\<rparr>)"
    using postProjects_answer[of "''n''" "''t''" "Some ''Test Project''" "Some ''super-secret''" DEFAULT_DATA]
    by (simp add: prod_eq_iff)
  have b: "postAccess (Some ''key'') ex_store = ((200, ProjectBody (Some Map.empty)), ex_store)"
    by (simp add: postAccess_def Let_def getProjectBySecret_def falsy_def sanitizeProject_def)
  have c: "getProjectBySecretSync ex_store (Some ''key'') = Some ex_project" by code_simp
  have e: "fst (getProject ex_store ''p'' (Some ''key''))
       = (403, ErrorBody ''Invalid secret key for this project.'')"
    by (simp add: getProject_def projectRoute_def requireProjectSecret_forbids)
  have f: "getProjects ex_store = ((500, ErrorPage), ex_store)"
    by (simp add: getProjects_def listProjects_def)
  from a b c e f show ?thesis by blast
qed

section \<open>Uniqueness of secret keys\<close>

lemma createProjectSync_key_taken:
  assumes "trim (orEmpty key) \<noteq> []"
      and "trim (orEmpty key) \<in> secretKey ` set (projects d)"
  shows "createProjectSync newId now (nm, key) d =
           (Inl (if trim (orEmpty nm) = [] then ProjectNameRequired else SecretKeyExists), d)"
proof -
  from assms(2) have "List.find (\<lambda>p. secretKey p = trim (orEmpty key)) (projects d) \<noteq> None"
    by (auto simp: find_None_iff)
  then show ?thesis using assms(1)
    by (auto simp: createProjectSync_def Let_def split: option.splits)
qed

lemma createProjectSync_key_present:
  assumes "trim (orEmpty nm) \<noteq> []" and "trim (orEmpty key) \<noteq> []"
  shows "trim (orEmpty key) \<in> secretKey ` set (projects (snd (createProjectSync newId now (nm, key) d)))"
  using assms
  by (force simp: createProjectSync_def Let_def split: option.splits dest!: find_Some_mem)

lemma createProjectSync_keeps_keys_unique:
  "distinct (map secretKey (projects d)) \<Longrightarrow>
   distinct (map secretKey (projects (snd (createProjectSync newId now inp d))))"
  by (cases "createProjectSync newId now inp d"; cases "fst (createProjectSync newId now inp d)")
     (auto dest!: createProjectSync_Inr createProjectSync_Inl)

lemma distinct_splice1: "distinct ys \<Longrightarrow> distinct (splice1 i ys)"
  by (simp add: splice1_def set_take_disj_set_drop_if_distinct)

lemma map_splice1: "map f (splice1 i xs) = splice1 i (map f xs)"
  by (simp add: splice1_def take_map drop_map)

lemma deleteProjectSync_keeps_keys_unique:
  "distinct (map secretKey (projects d)) \<Longrightarrow>
   distinct (map secretKey (projects (snd (deleteProjectSync pid d))))"
  by (auto simp: deleteProjectSync_def map_splice1 distinct_splice1 split: option.splits)

lemma unique_key_lookup:
  assumes "distinct (map secretKey (projects d))" and "p \<in> set (projects d)"
      and "secretKey p = trim (orEmpty key)" and "trim (orEmpty key) \<noteq> []"
  shows "getProjectBySecretSync d key = Some p"
proof -
  from assms(2,3) obtain q where
    q: "List.find (\<lambda>p. secretKey p = trim (orEmpty key)) (projects d) = Some q"
    by (cases "List.find (\<lambda>p. secretKey p = trim (orEmpty key)) (projects d)")
       (auto simp: find_None_iff)
  then have "q \<in> set (projects d)" "secretKey q = secretKey p"
    using assms(3) by (auto dest: find_Some_mem)
  with assms(1,2) have "q = p" by (auto simp: distinct_map dest: inj_onD)
  with q assms(4) show ?thesis by (simp add: getProjectBySecretSync_def Let_def)
qed

lemma distinct_map_filter_le1:
  "distinct (map f xs) \<Longrightarrow> length (filter (\<lambda>x. f x = k) xs) \<le> 1"
  by (induction xs) (auto simp: filter_empty_conv image_iff)

text \<open>
  Claim C8. After an attempt to create a project with a valid name and secret, a further
  creation with the same secret fails whatever its name: with the duplicate-key error, or
  with the missing-name error when the second name is blank; the store is the one before
  the attempt. Creation and project deletion keep the secret keys of the store pairwise
  different, and in such a store at most one project has a given secret and the lookup by
  secret returns it.
\<close>

theorem duplicate_secret_rejected:
  assumes "trim (orEmpty nm1) \<noteq> []" and "trim (orEmpty key) \<noteq> []"
  shows "(let d1 = snd (createProjectSync id1 t1 (nm1, key) d) in
            createProjectSync id2 t2 (nm2, key) d1 =
              (Inl (if trim (orEmpty nm2) = [] then ProjectNameRequired else SecretKeyExists), d1))
       \<and> (distinct (map secretKey (projects d)) \<longrightarrow>
            distinct (map secretKey (projects (snd (createProjectSync id1 t1 (nm1, key) d))))
          \<and> distinct (map secretKey (projects (snd (deleteProjectSync pid d))))
          \<and> length (filter (\<lambda>p. secretKey p = trim (orEmpty key)) (projects d)) \<le> 1
          \<and> (\<forall>p \<in> set (projects d). secretKey p = trim (orEmpty key) \<longrightarrow>
                getProjectBySecretSync d key = Some p))"
proof -
  let ?d1 = "snd (createProjectSync id1 t1 (nm1, key) d)"
  have taken: "trim (orEmpty key) \<in> secretKey ` set (projects ?d1)"
    using createProjectSync_key_present[OF assms] .
  have second: "\<And>i t. createProjectSync i t (nm2, key) ?d1 =
      (Inl (if trim (orEmpty nm2) = [] then ProjectNameRequired else SecretKeyExists), ?d1)"
    using createProjectSync_key_taken[OF assms(2) taken] .
  have count: "distinct (map secretKey (projects d)) \<Longrightarrow>
      length (filter (\<lambda>p. secretKey p = trim (orEmpty key)) (projects d)) \<le> 1"
    by (rule distinct_map_filter_le1)
  show ?thesis
    using second count assms(2)
    by (auto simp: Let_def createProjectSync_keeps_keys_unique deleteProjectSync_keeps_keys_unique
             intro: unique_key_lookup)
qed

theorem duplicate_secret_rejected_witness:
  "trim (orEmpty (Some ''Project A'')) \<noteq> [] \<and> trim (orEmpty (Some ''dup-key'')) \<noteq> []
   \<and> createProjectSync ''id2'' ''t2'' (Some ''Project B'', Some ''dup-key'')
        (snd (createProjectSync ''id1'' ''t1'' (Some ''Project A'', Some ''dup-key'') DEFAULT_DATA))
      = (Inl SecretKeyExists,
         snd (createProjectSync ''id1'' ''t1'' (Some ''Project A'', Some ''dup-key'') DEFAULT_DATA))
   \<and> distinct (map secretKey (projects ex_store))
   \<and> ex_project \<in> set (projects ex_store)
   \<and> secretKey ex_project = trim (orEmpty (Some ''key''))
   \<and> getProjectBySecretSync ex_store (Some ''key'') = Some ex_project"
proof -
  have a: "trim (orEmpty (Some ''Project A'')) \<noteq> []" by code_simp
  have b: "trim (orEmpty (Some ''dup-key'')) \<noteq> []" by code_simp
  have c: "trim (orEmpty (Some ''Project B'')) \<noteq> []" by code_simp
  have k: "trim (orEmpty (Some ''key'')) \<noteq> []" by code_simp
  have u: "distinct (map secretKey (projects ex_store))" by code_simp
  have m: "ex_project \<in> set (projects ex_store)" by (simp add: ex_store_def)
  have e: "secretKey ex_project = trim (orEmpty (Some ''key''))" by code_simp
  from duplicate_secret_rejected[OF a b, of "''id1''" "''t1''" DEFAULT_DATA "''id2''" "''t2''"
      "Some ''Project B''"] c
  have first: "createProjectSync ''id2'' ''t2'' (Some ''Project B'', Some ''dup-key'')
        (snd (createProjectSync ''id1'' ''t1'' (Some ''Project A'', Some ''dup-key'') DEFAULT_DATA))
      = (Inl SecretKeyExists,
         snd (createProjectSync ''id1'' ''t1'' (Some ''Project A'', Some ''dup-key'') DEFAULT_DATA))"
    by (simp add: Let_def)
  from duplicate_secret_rejected[OF a k, of _ _ ex_store] u m e
  have "getProjectBySecretSync ex_store (Some ''key'') = Some ex_project"
    by blast
  with a b first u m e show ?thesis by blast
qed

section \<open>Drops that change nothing\<close>

lemma fold_upd_map:
  "fold (\<lambda>st acc. acc(st \<mapsto> f st)) xs m = (\<lambda>s. if s \<in> set xs then Some (f s) else m s)"
  by (induction xs arbitrary: m) (auto simp: fun_eq_iff)

lemma cloneColumns_apply:
  "cloneColumns CO cols s =
     (if s \<in> set CO then Some (case cols s of None \<Rightarrow> [] | Some xs \<Rightarrow> xs) else None)"
  by (simp add: cloneColumns_def fold_upd_map)

lemma createEmptyColumns_apply:
  "createEmptyColumns CO s = (if s \<in> set CO then Some [] else None)"
  by (simp add: createEmptyColumns_def fold_upd_map)

lemma ensure_fold:
  "fold (\<lambda>st base. case inc st of Some xs \<Rightarrow> base(st \<mapsto> xs) | None \<Rightarrow> base) xs m s =
     (if s \<in> set xs then (case inc s of Some ys \<Rightarrow> Some ys | None \<Rightarrow> m s) else m s)"
  by (induction xs arbitrary: m) (auto split: option.splits)

lemma ensureColumns_apply:
  "ensureColumns CO (Some inc) s =
     (if s \<in> set CO then Some (case inc s of None \<Rightarrow> [] | Some xs \<Rightarrow> xs) else None)"
  by (auto simp: ensureColumns_def ensure_fold createEmptyColumns_apply split: option.splits)

text \<open>
  Claim C9. A drop whose destination column and index are those of its source returns
  with the state as it was and no request issued. When the displayed source column has no
  card at the source index (or there is no such column), the state is as it was and no
  request is issued; for a column of \<^verbatim>\<open>COLUMN_ORDER\<close> the handler simply returns.
\<close>

theorem drag_noop_cases:
  "(destination result = Some dest \<and> droppableId dest = droppableId (source result)
      \<and> index dest = index (source result) \<longrightarrow>
      handleDragEnd COLUMN_ORDER st result = (Returned, st, []))
   \<and> ((case ensureColumns COLUMN_ORDER (Some (cl_columns st)) (droppableId (source result)) of
          None \<Rightarrow> True
        | Some sourceItems \<Rightarrow> length sourceItems \<le> index (source result)) \<longrightarrow>
      snd (handleDragEnd COLUMN_ORDER st result) = (st, [])
      \<and> (droppableId (source result) \<in> set COLUMN_ORDER \<longrightarrow>
           handleDragEnd COLUMN_ORDER st result = (Returned, st, [])))"
  by (auto simp: handleDragEnd_def Let_def cloneColumns_apply ensureColumns_apply
           split: option.splits if_splits)

theorem drag_noop_cases_witness:
  "handleDragEnd VALID_STATUSES ex_client (ex_drop ''backlog'' 1 ''backlog'' 1)
     = (Returned, ex_client, [])
   \<and> ensureColumns VALID_STATUSES (Some (cl_columns ex_client)) ''backlog''
       = Some [ex_item ''a'' ''backlog'' 1, ex_item ''b'' ''backlog'' 2]
   \<and> handleDragEnd VALID_STATUSES ex_client (ex_drop ''backlog'' 2 ''done'' 0)
     = (Returned, ex_client, [])"
proof -
  have e: "ensureColumns VALID_STATUSES (Some (cl_columns ex_client)) ''backlog''
       = Some [ex_item ''a'' ''backlog'' 1, ex_item ''b'' ''backlog'' 2]"
    by (simp add: ensureColumns_apply VALID_STATUSES_def ex_client_def)
  have v: "''backlog'' \<in> set VALID_STATUSES" by (simp add: VALID_STATUSES_def)
  from drag_noop_cases[of "ex_drop ''backlog'' 1 ''backlog'' 1"
      "\<lparr>droppableId = ''backlog'', index = 1\<rparr>" VALID_STATUSES ex_client]
  have a: "handleDragEnd VALID_STATUSES ex_client (ex_drop ''backlog'' 1 ''backlog'' 1)
     = (Returned, ex_client, [])"
    by (simp add: ex_drop_def)
  from drag_noop_cases[of "ex_drop ''backlog'' 2 ''done'' 0" _ VALID_STATUSES ex_client] e v
  have b: "handleDragEnd VALID_STATUSES ex_client (ex_drop ''backlog'' 2 ''done'' 0)
     = (Returned, ex_client, [])"
    by (simp add: ex_drop_def)
  from a e b show ?thesis by blast
qed

lemma handleDragEnd_moves_card:
  "(case handleDragEnd VALID_STATUSES ex_client (ex_drop ''backlog'' 0 ''done'' 0) of
      (Awaiting previous, st, [ReorderItemsCall pid key ids]) \<Rightarrow>
         pid = Some ''p'' \<and> key = ''key'' \<and> ids ''backlog'' = Some [''b''] \<and>
         ids ''done'' = Some [''a''] \<and> previous ''backlog'' = cl_columns ex_client ''backlog''
    | _ \<Rightarrow> False)"
  by (simp add: handleDragEnd_def Let_def cloneColumns_apply ensureColumns_apply ex_drop_def
                ex_client_def VALID_STATUSES_def splice1_def columnsToIds_def ex_item_def)

section \<open>The reorder loop, item by item\<close>

lemma findIndex_Some_first: "findIndex P xs = Some j \<Longrightarrow> i < j \<Longrightarrow> \<not> P (xs ! i)"
proof (induction xs arbitrary: i j)
  case Nil
  then show ?case by simp
next
  case (Cons x xs)
  show ?case
  proof (cases "P x")
    case True
    with Cons.prems show ?thesis by simp
  next
    case False
    with Cons.prems obtain n where n: "findIndex P xs = Some n" "j = Suc n" by auto
    show ?thesis
    proof (cases i)
      case 0
      with False show ?thesis by simp
    next
      case (Suc m)
      with n Cons.prems(2) have "m < n" by simp
      from Cons.IH[OF n(1) this] Suc show ?thesis by simp
    qed
  qed
qed

lemma findIndex_SomeI:
  "j < length xs \<Longrightarrow> P (xs ! j) \<Longrightarrow> (\<And>i. i < j \<Longrightarrow> \<not> P (xs ! i)) \<Longrightarrow> findIndex P xs = Some j"
proof (induction xs arbitrary: j)
  case Nil
  then show ?case by simp
next
  case (Cons x xs)
  show ?case
  proof (cases j)
    case 0
    with Cons.prems(2) show ?thesis by simp
  next
    case (Suc n)
    have nx: "\<not> P x" using Cons.prems(3)[of 0] Suc by simp
    have "findIndex P xs = Some n"
    proof (rule Cons.IH)
      show "n < length xs" using Cons.prems(1) Suc by simp
      show "P (xs ! n)" using Cons.prems(2) Suc by simp
      fix i assume "i < n"
      then show "\<not> P (xs ! i)" using Cons.prems(3)[of "Suc i"] Suc by simp
    qed
    with nx Suc show ?thesis by simp
  qed
qed

lemma findIndex_None_iff: "findIndex P xs = None \<longleftrightarrow> (\<forall>x \<in> set xs. \<not> P x)"
  by (induction xs) auto

lemma findIndex_cong_map: "map P xs = map Q ys \<Longrightarrow> findIndex P xs = findIndex Q ys"
proof (induction xs arbitrary: ys)
  case Nil
  then show ?case by simp
next
  case (Cons x xs)
  then obtain y ys' where "ys = y # ys'" by (cases ys) auto
  with Cons show ?case by auto
qed

lemma keys_findIndex:
  assumes "keys xs = keys ys"
  shows "findIndex (\<lambda>i. item_id i = x \<and> projectId i = pid) xs
       = findIndex (\<lambda>i. item_id i = x \<and> projectId i = pid) ys"
proof -
  have "map (\<lambda>k. fst k = x \<and> snd k = pid) (keys xs) = map (\<lambda>k. fst k = x \<and> snd k = pid) (keys ys)"
    using assms by simp
  then show ?thesis by (intro findIndex_cong_map) (simp add: keys_def comp_def)
qed

lemma keys_length: "keys xs = keys ys \<Longrightarrow> length xs = length ys"
  by (metis keys_def length_map)

lemma keys_nth:
  assumes "keys xs = keys ys" and "j < length xs"
  shows "item_id (xs ! j) = item_id (ys ! j) \<and> projectId (xs ! j) = projectId (ys ! j)"
proof -
  have l: "j < length ys" using assms keys_length by metis
  have "keys xs ! j = keys ys ! j" using assms(1) by simp
  moreover have "keys xs ! j = (item_id (xs ! j), projectId (xs ! j))"
    using assms(2) by (simp add: keys_def)
  moreover have "keys ys ! j = (item_id (ys ! j), projectId (ys ! j))"
    using l by (simp add: keys_def)
  ultimately show ?thesis by simp
qed

lemma reorderOne_keys: "keys (reorderOne pid st clk ix its) = keys its"
proof (cases "findIndex (\<lambda>i. item_id i = snd ix \<and> projectId i = pid) its")
  case None
  then show ?thesis by (simp add: reorderOne_def)
next
  case (Some j)
  then have j: "j < length its" by (simp add: findIndex_Some_less)
  have "keys (its[j := (its ! j)\<lparr>status := st, position := Some (int (fst ix) + 1),
                                 updatedAt := clk (fst ix)\<rparr>])
      = (keys its)[j := keys its ! j]"
    using j by (simp add: keys_def map_update)
  then show ?thesis using Some by (simp add: reorderOne_def)
qed

lemma reorderOne_nth:
  "j < length its \<Longrightarrow>
   reorderOne pid st (clock st) ix its ! j =
     (if hits pid its j (st, ix) then stamp clock (st, ix) (its ! j) else its ! j)"
  by (auto simp: reorderOne_def hits_def stamp_def nth_list_update
           dest!: findIndex_Some_less split: option.splits)

lemma reorder_as_writes:
  "fold (reorderColumn pid clock columns) sts its =
   fold (\<lambda>w. reorderOne pid (fst w) (clock (fst w)) (snd w))
        (concat (map (\<lambda>st. map (Pair st) (enumerate 0 (orderedIds columns st))) sts)) its"
  by (induction sts arbitrary: its) (simp_all add: reorderColumn_def fold_map comp_def)

lemma hits_keys: "keys xs = keys ys \<Longrightarrow> hits pid xs j w = hits pid ys j w"
  unfolding hits_def by (drule keys_findIndex[where x = "snd (snd w)" and pid = pid]) simp

lemma fold_writes_nth:
  assumes "keys its = keys its0" and "j < length its0"
  shows "keys (fold (\<lambda>w. reorderOne pid (fst w) (clock (fst w)) (snd w)) ws its) = keys its0
       \<and> fold (\<lambda>w. reorderOne pid (fst w) (clock (fst w)) (snd w)) ws its ! j
         = fold (\<lambda>w it. if hits pid its0 j w then stamp clock w it else it) ws (its ! j)"
  using assms
proof (induction ws arbitrary: its)
  case Nil
  then show ?case by simp
next
  case (Cons w ws)
  let ?F = "\<lambda>w. reorderOne pid (fst w) (clock (fst w)) (snd w)"
  let ?G = "\<lambda>w it. if hits pid its0 j w then stamp clock w it else it"
  let ?its' = "?F w its"
  have k: "keys ?its' = keys its0" using Cons.prems(1) by (simp add: reorderOne_keys)
  have len: "j < length its" using Cons.prems keys_length by metis
  have "?its' ! j = (if hits pid its j (fst w, snd w) then stamp clock (fst w, snd w) (its ! j)
                     else its ! j)"
    by (rule reorderOne_nth[OF len])
  then have step: "?its' ! j = ?G w (its ! j)"
    by (simp add: hits_keys[OF Cons.prems(1)])
  have a: "fold ?F (w # ws) its = fold ?F ws ?its'" by simp
  have b: "fold ?G (w # ws) (its ! j) = fold ?G ws (?its' ! j)"
    by (simp only: step fold_simps comp_def)
  show ?case unfolding a b by (rule Cons.IH[OF k Cons.prems(2)])
qed

lemma stamp_stamp: "stamp clock w (stamp clock' w' it) = stamp clock w it"
  by (simp add: stamp_def)

lemma fold_last_wins:
  "fold (\<lambda>w it. if H w then stamp clock w it else it) ws it =
     (case filter H ws of [] \<Rightarrow> it | h # hs \<Rightarrow> stamp clock (last (h # hs)) it)"
proof (induction ws rule: rev_induct)
  case Nil
  then show ?case by simp
next
  case (snoc w ws)
  then show ?case
    by (cases "filter H ws") (auto simp: stamp_stamp)
qed

lemma reorder_fold_writes:
  "fold (reorderColumn pid clock columns) VALID_STATUSES its =
   fold (\<lambda>w. reorderOne pid (fst w) (clock (fst w)) (snd w)) (writes columns) its"
  unfolding writes_def by (rule reorder_as_writes)

lemma reorder_keys: "keys (fold (reorderColumn pid clock columns) VALID_STATUSES its) = keys its"
proof (cases its)
  case Nil
  have "keys (fold (reorderColumn pid clock columns) VALID_STATUSES its) = keys its
        \<or> length its = 0" by (simp add: Nil)
  have "\<And>ws. fold (\<lambda>w. reorderOne pid (fst w) (clock (fst w)) (snd w)) ws [] = []"
  proof -
    fix ws :: "(string \<times> nat \<times> string) list"
    show "fold (\<lambda>w. reorderOne pid (fst w) (clock (fst w)) (snd w)) ws [] = []"
      by (induction ws) (simp_all add: reorderOne_def)
  qed
  then show ?thesis by (simp add: Nil reorder_fold_writes)
next
  case (Cons a list)
  then have "0 < length its" by simp
  from fold_writes_nth[OF refl this, of pid clock "writes columns"]
  show ?thesis by (simp add: reorder_fold_writes)
qed

lemma reorder_length:
  "length (fold (reorderColumn pid clock columns) VALID_STATUSES its) = length its"
  using keys_length[OF reorder_keys] .

lemma reorder_nth:
  assumes "j < length its"
  shows "fold (reorderColumn pid clock columns) VALID_STATUSES its ! j =
     (case filter (hits pid its j) (writes columns) of
        [] \<Rightarrow> its ! j
      | h # hs \<Rightarrow> stamp clock (last (h # hs)) (its ! j))"
  using fold_writes_nth[OF refl assms, of pid clock "writes columns"]
  by (simp add: reorder_fold_writes fold_last_wins)

lemma hits_id:
  "hits pid its j w \<Longrightarrow> j < length its \<and> item_id (its ! j) = snd (snd w) \<and> projectId (its ! j) = pid"
  unfolding hits_def by (drule findIndex_Some_less) simp

lemma payload_writes: "payload columns = map (\<lambda>w. snd (snd w)) (writes columns)"
  by (simp add: payload_def writes_def map_concat comp_def)

lemma writes_mem:
  "(st, k, x) \<in> set (writes columns) \<longleftrightarrow>
     st \<in> set VALID_STATUSES \<and> k < length (orderedIds columns st) \<and> orderedIds columns st ! k = x"
proof -
  have "(st, k, x) \<in> set (writes columns) \<longleftrightarrow>
        st \<in> set VALID_STATUSES \<and> (k, x) \<in> set (enumerate 0 (orderedIds columns st))"
    by (auto simp: writes_def)
  then show ?thesis by (auto simp: in_set_enumerate_eq)
qed

lemma count_list_map_filter: "count_list (map f ws) x = length (filter (\<lambda>w. f w = x) ws)"
  by (induction ws) auto

lemma named_once:
  assumes "count_list (payload columns) x = 1" and "(st, k, x) \<in> set (writes columns)"
  shows "filter (\<lambda>w. snd (snd w) = x) (writes columns) = [(st, k, x)]"
proof -
  have "length (filter (\<lambda>w. snd (snd w) = x) (writes columns)) = 1"
    using assms(1) by (simp add: payload_writes count_list_map_filter)
  then obtain w where w: "filter (\<lambda>w. snd (snd w) = x) (writes columns) = [w]"
    by (cases "filter (\<lambda>w. snd (snd w) = x) (writes columns)") auto
  have "(st, k, x) \<in> set (filter (\<lambda>w. snd (snd w) = x) (writes columns))"
    using assms(2) by simp
  with w show ?thesis by simp
qed

lemma hits_filter:
  assumes "findIndex (\<lambda>i. item_id i = x \<and> projectId i = pid) its = Some j"
  shows "filter (hits pid its j) ws = filter (\<lambda>w. snd (snd w) = x) ws"
proof (rule filter_cong[OF refl])
  fix w
  from findIndex_Some_less[OF assms] have x: "item_id (its ! j) = x" by simp
  show "hits pid its j w = (snd (snd w) = x)"
  proof
    assume "hits pid its j w"
    from hits_id[OF this] x show "snd (snd w) = x" by simp
  next
    assume "snd (snd w) = x"
    with assms show "hits pid its j w" by (simp add: hits_def)
  qed
qed

lemma reorder_named_once:
  assumes "st \<in> set VALID_STATUSES" and "k < length (orderedIds columns st)"
      and "count_list (payload columns) (orderedIds columns st ! k) = 1"
      and "findIndex (\<lambda>i. item_id i = orderedIds columns st ! k \<and> projectId i = pid) its = Some j"
  shows "fold (reorderColumn pid clock columns) VALID_STATUSES its ! j =
           (its ! j)\<lparr>status := st, position := Some (int k + 1), updatedAt := clock st k\<rparr>"
proof -
  let ?x = "orderedIds columns st ! k"
  have m: "(st, k, ?x) \<in> set (writes columns)" using assms(1,2) by (simp add: writes_mem)
  have j: "j < length its" using findIndex_Some_less[OF assms(4)] by simp
  have "filter (hits pid its j) (writes columns) = [(st, k, ?x)]"
    using hits_filter[OF assms(4)] named_once[OF assms(3) m] by simp
  then show ?thesis using reorder_nth[OF j, of pid clock columns] by (simp add: stamp_def)
qed

lemma reorder_unnamed:
  assumes "j < length its"
      and "item_id (its ! j) \<notin> set (payload columns) \<or> projectId (its ! j) \<noteq> pid"
  shows "fold (reorderColumn pid clock columns) VALID_STATUSES its ! j = its ! j"
proof -
  have "filter (hits pid its j) (writes columns) = []"
  proof (rule ccontr)
    assume "filter (hits pid its j) (writes columns) \<noteq> []"
    then obtain w where w: "w \<in> set (writes columns)" "hits pid its j w"
      by (auto simp: filter_empty_conv)
    from hits_id[OF w(2)] w(1) assms(2) show False
      by (auto simp: payload_writes)
  qed
  then show ?thesis using reorder_nth[OF assms(1), of pid clock columns] by simp
qed

lemma reorderItemsSync_ok:
  "list_ex (\<lambda>p. proj_id p = pid) (projects d) \<Longrightarrow>
   reorderItemsSync clock pid columns d =
     (Inr (getItemsByProjectSync pid
             (d\<lparr>items := fold (reorderColumn pid clock columns) VALID_STATUSES (items d)\<rparr>)),
      d\<lparr>items := fold (reorderColumn pid clock columns) VALID_STATUSES (items d)\<rparr>)"
  by (simp add: reorderItemsSync_def Let_def)

lemma reorderItemsSync_missing:
  "\<not> list_ex (\<lambda>p. proj_id p = pid) (projects d) \<Longrightarrow>
   reorderItemsSync clock pid columns d = (Inl ProjectNotFound, d)"
  by (simp add: reorderItemsSync_def)

section \<open>Grouping, sorting and update stamps\<close>

lemma group_fold:
  "fold (\<lambda>it columns.
           columns(status it \<mapsto> (case columns (status it) of None \<Rightarrow> [] | Some xs \<Rightarrow> xs) @ [it]))
        its m st =
     (if st \<in> status ` set its
      then Some ((case m st of None \<Rightarrow> [] | Some xs \<Rightarrow> xs) @ filter (\<lambda>i. status i = st) its)
      else m st)"
proof (induction its arbitrary: m)
  case Nil
  then show ?case by simp
next
  case (Cons a its)
  have e: "\<And>s. s \<notin> status ` set its \<Longrightarrow> [] = filter (\<lambda>i. status i = s) its"
    by (auto simp: empty_filter_conv)
  show ?case
    by (simp only: fold_simps o_apply Cons.IH) (auto split: option.splits intro: e)
qed

lemma groupItemsByStatus_apply:
  "groupItemsByStatus its st =
     (if st \<in> set VALID_STATUSES \<or> st \<in> status ` set its
      then Some (filter (\<lambda>i. status i = st) its) else None)"
proof -
  have e: "st \<notin> status ` set its \<Longrightarrow> filter (\<lambda>i. status i = st) its = []"
    by (auto simp: filter_empty_conv)
  show ?thesis
    unfolding groupItemsByStatus_def group_fold fold_upd_map using e by simp
qed

lemma insort_forget:
  "map forgetStamp (insort_key (\<lambda>i. (statusOrder (status i), pos0 i)) x ys)
   = insort_key (\<lambda>i. (statusOrder (status i), pos0 i)) (forgetStamp x) (map forgetStamp ys)"
  by (induction ys) (simp_all add: forgetStamp_def pos0_def)

lemma forget_sortItems: "map forgetStamp (sortItems xs) = sortItems (map forgetStamp xs)"
  unfolding sortItems_def by (induction xs) (simp_all add: insort_forget)

lemma forget_getItems:
  "map forgetStamp (items d') = map forgetStamp (items d) \<Longrightarrow>
   map forgetStamp (getItemsByProjectSync pid d') = map forgetStamp (getItemsByProjectSync pid d)"
proof -
  assume a: "map forgetStamp (items d') = map forgetStamp (items d)"
  have f: "\<And>xs. map forgetStamp (filter (\<lambda>i. projectId i = pid) xs)
              = filter (\<lambda>i. projectId i = pid) (map forgetStamp xs)"
    by (simp add: filter_map comp_def forgetStamp_def)
  show ?thesis by (simp add: getItemsByProjectSync_def forget_sortItems f a)
qed

lemma boardView_group: "boardView (groupItemsByStatus xs) = groupItemsByStatus (map forgetStamp xs)"
proof
  fix st
  have s: "status ` set (map forgetStamp xs) = status ` set xs"
    by (auto simp: forgetStamp_def image_iff)
  have f: "map forgetStamp (filter (\<lambda>i. status i = st) xs)
         = filter (\<lambda>i. status i = st) (map forgetStamp xs)"
    by (simp add: filter_map comp_def forgetStamp_def)
  show "boardView (groupItemsByStatus xs) st = groupItemsByStatus (map forgetStamp xs) st"
    unfolding boardView_def groupItemsByStatus_apply s using f by simp
qed

lemma forget_stamp: "forgetStamp (stamp clock w (stamp clock' w it)) = forgetStamp (stamp clock' w it)"
  by (simp add: forgetStamp_def stamp_def)

lemma reorder_twice_forget:
  "map forgetStamp (fold (reorderColumn pid clock2 columns) VALID_STATUSES
                      (fold (reorderColumn pid clock1 columns) VALID_STATUSES its))
   = map forgetStamp (fold (reorderColumn pid clock1 columns) VALID_STATUSES its)"
proof (rule nth_equalityI)
  let ?its1 = "fold (reorderColumn pid clock1 columns) VALID_STATUSES its"
  let ?its2 = "fold (reorderColumn pid clock2 columns) VALID_STATUSES ?its1"
  show "length (map forgetStamp ?its2) = length (map forgetStamp ?its1)"
    by (simp add: reorder_length)
  fix j assume "j < length (map forgetStamp ?its2)"
  then have j: "j < length its" and j1: "j < length ?its1" by (simp_all add: reorder_length)
  have h: "filter (hits pid ?its1 j) (writes columns) = filter (hits pid its j) (writes columns)"
    by (rule filter_cong[OF refl]) (rule hits_keys[OF reorder_keys])
  have "forgetStamp (?its2 ! j) = forgetStamp (?its1 ! j)"
    unfolding reorder_nth[OF j1] h unfolding reorder_nth[OF j]
    by (cases "filter (hits pid its j) (writes columns)") (simp_all add: forget_stamp)
  then show "map forgetStamp ?its2 ! j = map forgetStamp ?its1 ! j"
    using j j1 by (simp add: reorder_length)
qed

lemma stamp_same: "stamp clock w (stamp clock w it) = stamp clock w it"
  by (simp add: stamp_def)

lemma reorder_twice_same:
  "fold (reorderColumn pid clock columns) VALID_STATUSES
     (fold (reorderColumn pid clock columns) VALID_STATUSES its)
   = fold (reorderColumn pid clock columns) VALID_STATUSES its"
proof (rule nth_equalityI)
  let ?its1 = "fold (reorderColumn pid clock columns) VALID_STATUSES its"
  let ?its2 = "fold (reorderColumn pid clock columns) VALID_STATUSES ?its1"
  show "length ?its2 = length ?its1" by (simp add: reorder_length)
  fix j assume "j < length ?its2"
  then have j: "j < length its" and j1: "j < length ?its1" by (simp_all add: reorder_length)
  have h: "filter (hits pid ?its1 j) (writes columns) = filter (hits pid its j) (writes columns)"
    by (rule filter_cong[OF refl]) (rule hits_keys[OF reorder_keys])
  show "?its2 ! j = ?its1 ! j"
    unfolding reorder_nth[OF j1] h unfolding reorder_nth[OF j]
    by (cases "filter (hits pid its j) (writes columns)") (simp_all add: stamp_same)
qed


text \<open>
  Claim C4. Submitting the same columns a second time gives the same grouped board as the
  first time: the same items under the same statuses, in the same order, equal in every
  field but the update stamp, whatever the clock shows in the two requests; with the same
  clock readings the second request returns exactly the result and the store of the
  first. A request for a project that does not exist fails both times and leaves the
  store as it was.
\<close>

theorem reorder_idempotent:
  "(case reorderItemsSync clock1 pid columns d of
      (Inl e, d1) \<Rightarrow> d1 = d \<and> reorderItemsSync clock2 pid columns d1 = (Inl e, d1)
    | (Inr its1, d1) \<Rightarrow>
        (case reorderItemsSync clock2 pid columns d1 of
           (Inl e, d2) \<Rightarrow> False
         | (Inr its2, d2) \<Rightarrow>
             boardView (groupItemsByStatus its2) = boardView (groupItemsByStatus its1)
             \<and> map forgetStamp (items d2) = map forgetStamp (items d1)
             \<and> projects d2 = projects d1)
        \<and> reorderItemsSync clock1 pid columns d1 = (Inr its1, d1))"
proof (cases "list_ex (\<lambda>p. proj_id p = pid) (projects d)")
  case False
  then show ?thesis by (simp add: reorderItemsSync_missing)
next
  case True
  let ?d1 = "d\<lparr>items := fold (reorderColumn pid clock1 columns) VALID_STATUSES (items d)\<rparr>"
  let ?d2 = "?d1\<lparr>items := fold (reorderColumn pid clock2 columns) VALID_STATUSES (items ?d1)\<rparr>"
  have p1: "list_ex (\<lambda>p. proj_id p = pid) (projects ?d1)" using True by simp
  have r1: "reorderItemsSync clock1 pid columns d = (Inr (getItemsByProjectSync pid ?d1), ?d1)"
    by (rule reorderItemsSync_ok[OF True])
  have r2: "reorderItemsSync clock2 pid columns ?d1 = (Inr (getItemsByProjectSync pid ?d2), ?d2)"
    by (rule reorderItemsSync_ok[OF p1])
  have same: "reorderItemsSync clock1 pid columns ?d1 = (Inr (getItemsByProjectSync pid ?d1), ?d1)"
    unfolding reorderItemsSync_ok[OF p1] by (simp add: reorder_twice_same)
  have f: "map forgetStamp (items ?d2) = map forgetStamp (items ?d1)"
    by (simp add: reorder_twice_forget)
  have b: "boardView (groupItemsByStatus (getItemsByProjectSync pid ?d2))
         = boardView (groupItemsByStatus (getItemsByProjectSync pid ?d1))"
    unfolding boardView_group forget_getItems[OF f] ..
  show ?thesis unfolding r1 using r2 same f b by simp
qed

theorem reorder_idempotent_witness:
  "reorderItemsSync (\<lambda>st k. ''t3'') ''p'' ex_gap_columns ex_store =
     (Inr [(ex_item ''b'' ''backlog'' 2)\<lparr>updatedAt := ''t3''\<rparr>,
           (ex_item ''a'' ''backlog'' 3)\<lparr>updatedAt := ''t3''\<rparr>, ex_item ''c'' ''done'' 5],
      ex_store\<lparr>items := [(ex_item ''a'' ''backlog'' 3)\<lparr>updatedAt := ''t3''\<rparr>,
                          (ex_item ''b'' ''backlog'' 2)\<lparr>updatedAt := ''t3''\<rparr>,
                          ex_item ''c'' ''done'' 5]\<rparr>)
   \<and> reorderItemsSync (\<lambda>st k. ''t4'') ''p'' ex_gap_columns
        (ex_store\<lparr>items := [(ex_item ''a'' ''backlog'' 3)\<lparr>updatedAt := ''t3''\<rparr>,
                             (ex_item ''b'' ''backlog'' 2)\<lparr>updatedAt := ''t3''\<rparr>,
                             ex_item ''c'' ''done'' 5]\<rparr>) =
     (Inr [(ex_item ''b'' ''backlog'' 2)\<lparr>updatedAt := ''t4''\<rparr>,
           (ex_item ''a'' ''backlog'' 3)\<lparr>updatedAt := ''t4''\<rparr>, ex_item ''c'' ''done'' 5],
      ex_store\<lparr>items := [(ex_item ''a'' ''backlog'' 3)\<lparr>updatedAt := ''t4''\<rparr>,
                          (ex_item ''b'' ''backlog'' 2)\<lparr>updatedAt := ''t4''\<rparr>,
                          ex_item ''c'' ''done'' 5]\<rparr>)
   \<and> boardView (groupItemsByStatus
         [(ex_item ''b'' ''backlog'' 2)\<lparr>updatedAt := ''t4''\<rparr>,
          (ex_item ''a'' ''backlog'' 3)\<lparr>updatedAt := ''t4''\<rparr>, ex_item ''c'' ''done'' 5])
     = boardView (groupItemsByStatus
         [(ex_item ''b'' ''backlog'' 2)\<lparr>updatedAt := ''t3''\<rparr>,
          (ex_item ''a'' ''backlog'' 3)\<lparr>updatedAt := ''t3''\<rparr>, ex_item ''c'' ''done'' 5])"
proof -
  let ?r1 = "[(ex_item ''b'' ''backlog'' 2)\<lparr>updatedAt := ''t3''\<rparr>,
           (ex_item ''a'' ''backlog'' 3)\<lparr>updatedAt := ''t3''\<rparr>, ex_item ''c'' ''done'' 5]"
  let ?d1 = "ex_store\<lparr>items := [(ex_item ''a'' ''backlog'' 3)\<lparr>updatedAt := ''t3''\<rparr>,
                          (ex_item ''b'' ''backlog'' 2)\<lparr>updatedAt := ''t3''\<rparr>,
                          ex_item ''c'' ''done'' 5]\<rparr>"
  let ?r2 = "[(ex_item ''b'' ''backlog'' 2)\<lparr>updatedAt := ''t4''\<rparr>,
           (ex_item ''a'' ''backlog'' 3)\<lparr>updatedAt := ''t4''\<rparr>, ex_item ''c'' ''done'' 5]"
  let ?d2 = "ex_store\<lparr>items := [(ex_item ''a'' ''backlog'' 3)\<lparr>updatedAt := ''t4''\<rparr>,
                          (ex_item ''b'' ''backlog'' 2)\<lparr>updatedAt := ''t4''\<rparr>,
                          ex_item ''c'' ''done'' 5]\<rparr>"
  have e1: "reorderItemsSync (\<lambda>st k. ''t3'') ''p'' ex_gap_columns ex_store = (Inr ?r1, ?d1)"
    by code_simp
  have e2: "reorderItemsSync (\<lambda>st k. ''t4'') ''p'' ex_gap_columns ?d1 = (Inr ?r2, ?d2)"
    by code_simp
  from reorder_idempotent[where ?clock1.0 = "\<lambda>st k. ''t3''" and pid = "''p''"
      and columns = ex_gap_columns and d = ex_store and ?clock2.0 = "\<lambda>st k. ''t4''"]
  have "boardView (groupItemsByStatus ?r2) = boardView (groupItemsByStatus ?r1)"
    unfolding e1 by (simp add: e2)
  with e1 e2 show ?thesis by blast
qed

section \<open>Identifiers that match no item\<close>

lemma lastWrite_Some:
  "lastWrite P columns = Some w \<Longrightarrow>
   \<exists>h hs. filter (\<lambda>w. P (snd (snd w))) (writes columns) = h # hs \<and> last (h # hs) = w"
  by (cases "filter (\<lambda>w. P (snd (snd w))) (writes columns)") (simp_all add: lastWrite_def)

lemma lastWrite_None:
  "lastWrite P columns = None \<Longrightarrow> filter (\<lambda>w. P (snd (snd w))) (writes columns) = []"
  by (cases "filter (\<lambda>w. P (snd (snd w))) (writes columns)") (simp_all add: lastWrite_def)

lemma reorder_last_write:
  assumes "findIndex (\<lambda>i. item_id i = x \<and> projectId i = pid) its = Some j"
      and "lastWrite (\<lambda>z. z = x) columns = Some (st, k, y)"
  shows "fold (reorderColumn pid clock columns) VALID_STATUSES its ! j =
           (its ! j)\<lparr>status := st, position := Some (int k + 1), updatedAt := clock st k\<rparr>"
proof -
  have j: "j < length its" using findIndex_Some_less[OF assms(1)] by simp
  from lastWrite_Some[OF assms(2)] obtain h hs where
    f: "filter (\<lambda>w. snd (snd w) = x) (writes columns) = h # hs" and l: "last (h # hs) = (st, k, y)"
    by blast
  have "filter (hits pid its j) (writes columns) = h # hs"
    using hits_filter[OF assms(1)] f by simp
  then have "fold (reorderColumn pid clock columns) VALID_STATUSES its ! j
               = stamp clock (last (h # hs)) (its ! j)"
    using reorder_nth[OF j, of pid clock columns] by simp
  then show ?thesis unfolding l by (simp add: stamp_def)
qed

subsection \<open>The Postgres loop\<close>

lemma foldE_append:
  "foldE f (xs @ ys) s = (case foldE f xs s of Inl e \<Rightarrow> Inl e | Inr s' \<Rightarrow> foldE f ys s')"
  by (induction xs arbitrary: s) (auto split: sum.splits)

lemma foldE_map: "foldE f (map g xs) s = foldE (\<lambda>x. f (g x)) xs s"
  by (induction xs arbitrary: s) (auto split: sum.splits)

lemma foldE_concat:
  "foldE (\<lambda>st. foldE (g st) (f st)) sts s =
   foldE (\<lambda>w. g (fst w) (snd w)) (concat (map (\<lambda>st. map (Pair st) (f st)) sts)) s"
  by (induction sts arbitrary: s) (auto simp: foldE_append foldE_map split: sum.splits)

lemma updateRows_as_writes:
  "foldE (\<lambda>st. foldE (updateRow u st now) (enumerate 0 (orderedIds columns st))) VALID_STATUSES rows =
   foldE (\<lambda>w. updateRow u (fst w) now (snd w)) (writes columns) rows"
  unfolding writes_def by (rule foldE_concat)

lemma updateRow_parsed:
  "uuid_in (snd (snd w)) \<noteq> None \<Longrightarrow>
   updateRow u (fst w) now (snd w) rows =
     Inr (map (\<lambda>r. if changes u r w then stamp (\<lambda>st k. now) w r else r) rows)"
  by (auto simp: updateRow_def changes_def stamp_def split: option.splits)

lemma updateRows_parsed:
  "\<forall>w \<in> set ws. uuid_in (snd (snd w)) \<noteq> None \<Longrightarrow>
   foldE (\<lambda>w. updateRow u (fst w) now (snd w)) ws rows =
     Inr (map (fold (\<lambda>w r. if changes u r w then stamp (\<lambda>st k. now) w r else r) ws) rows)"
proof (induction ws arbitrary: rows)
  case Nil
  then show ?case by simp
next
  case (Cons w ws)
  have h: "uuid_in (snd (snd w)) \<noteq> None" using Cons.prems by simp
  have t: "\<forall>w \<in> set ws. uuid_in (snd (snd w)) \<noteq> None" using Cons.prems by simp
  show ?case
    by (simp only: foldE.simps updateRow_parsed[OF h] sum.case Cons.IH[OF t] map_map fold_simps)
       (simp add: comp_def)
qed

lemma changes_stamp: "changes u (stamp c w' r) w = changes u r w"
  by (simp add: changes_def stamp_def)

lemma fold_changes_fixed:
  "(\<And>w. changes u r w = changes u r0 w) \<Longrightarrow>
   fold (\<lambda>w r. if changes u r w then stamp c w r else r) ws r =
   fold (\<lambda>w it. if changes u r0 w then stamp c w it else it) ws r"
proof (induction ws arbitrary: r)
  case Nil
  then show ?case by simp
next
  case (Cons w ws)
  let ?r' = "if changes u r0 w then stamp c w r else r"
  have k: "\<And>v. changes u ?r' v = changes u r0 v"
    using Cons.prems by (simp add: changes_stamp)
  show ?case using Cons.IH[OF k] Cons.prems by simp
qed

lemma updateRows_row:
  "fold (\<lambda>w r. if changes u r w then stamp c w r else r) ws r =
     (case filter (changes u r) ws of [] \<Rightarrow> r | h # hs \<Rightarrow> stamp c (last (h # hs)) r)"
  using fold_changes_fixed[of u r r c ws] by (simp add: fold_last_wins)

lemma updateRows_unparsed:
  "\<exists>w \<in> set ws. uuid_in (snd (snd w)) = None \<Longrightarrow>
   \<exists>w \<in> set ws. uuid_in (snd (snd w)) = None \<and>
     foldE (\<lambda>w. updateRow u (fst w) now (snd w)) ws rows = Inl (InvalidUuidSyntax (snd (snd w)))"
proof (induction ws arbitrary: rows)
  case Nil
  then show ?case by simp
next
  case (Cons w ws)
  show ?case
  proof (cases "uuid_in (snd (snd w))")
    case None
    then have "foldE (\<lambda>w. updateRow u (fst w) now (snd w)) (w # ws) rows
                 = Inl (InvalidUuidSyntax (snd (snd w)))"
      by (simp add: updateRow_def)
    with None show ?thesis by auto
  next
    case (Some a)
    then have t: "\<exists>w \<in> set ws. uuid_in (snd (snd w)) = None" using Cons.prems by auto
    have h: "uuid_in (snd (snd w)) \<noteq> None" using Some by simp
    from Cons.IH[OF t, of "map (\<lambda>r. if changes u r w then stamp (\<lambda>st k. now) w r else r) rows"]
    show ?thesis by (auto simp: updateRow_parsed[OF h])
  qed
qed

lemma reorderItems_parsed:
  assumes "uuid_in pid = Some u"
      and "list_ex (\<lambda>p. uuid_in (proj_id p) = Some u) (projects d)"
      and "\<forall>x \<in> set (payload columns). uuid_in x \<noteq> None"
  shows "reorderItems now pid columns d =
     (Inr (getItemsByProject u
             (d\<lparr>items := map (\<lambda>r. case filter (changes u r) (writes columns) of
                                      [] \<Rightarrow> r
                                    | h # hs \<Rightarrow> stamp (\<lambda>st k. now) (last (h # hs)) r) (items d)\<rparr>)),
      d\<lparr>items := map (\<lambda>r. case filter (changes u r) (writes columns) of
                                      [] \<Rightarrow> r
                                    | h # hs \<Rightarrow> stamp (\<lambda>st k. now) (last (h # hs)) r) (items d)\<rparr>)"
proof -
  have p: "\<forall>w \<in> set (writes columns). uuid_in (snd (snd w)) \<noteq> None"
    using assms(3) by (simp add: payload_writes)
  have "foldE (\<lambda>st. foldE (updateRow u st now) (enumerate 0 (orderedIds columns st)))
              VALID_STATUSES (items d)
        = Inr (map (\<lambda>r. case filter (changes u r) (writes columns) of
                           [] \<Rightarrow> r
                         | h # hs \<Rightarrow> stamp (\<lambda>st k. now) (last (h # hs)) r) (items d))"
    unfolding updateRows_as_writes updateRows_parsed[OF p] updateRows_row ..
  then show ?thesis using assms(1,2) by (simp add: reorderItems_def Let_def)
qed

lemma reorderItems_unparsed:
  assumes "uuid_in pid = Some u"
      and "list_ex (\<lambda>p. uuid_in (proj_id p) = Some u) (projects d)"
      and "\<exists>x \<in> set (payload columns). uuid_in x = None"
  shows "\<exists>x \<in> set (payload columns). uuid_in x = None \<and>
           reorderItems now pid columns d = (Inl (InvalidUuidSyntax x), d)"
proof -
  have "\<exists>w \<in> set (writes columns). uuid_in (snd (snd w)) = None"
    using assms(3) by (simp add: payload_writes)
  from updateRows_unparsed[OF this, of u now "items d"] obtain w where
    w: "w \<in> set (writes columns)" "uuid_in (snd (snd w)) = None"
       "foldE (\<lambda>w. updateRow u (fst w) now (snd w)) (writes columns) (items d)
          = Inl (InvalidUuidSyntax (snd (snd w)))"
    by blast
  have m: "snd (snd w) \<in> set (payload columns)" using w(1) by (simp add: payload_writes)
  have "reorderItems now pid columns d = (Inl (InvalidUuidSyntax (snd (snd w))), d)"
    using assms(1,2) w(3) by (simp add: reorderItems_def updateRows_as_writes)
  with m w(2) show ?thesis by blast
qed

lemma changes_as_lastWrite:
  assumes "\<forall>x \<in> set (payload columns). uuid_in x \<noteq> None"
      and "uuid_in (projectId r) = Some u"
  shows "filter (changes u r) (writes columns)
           = filter (\<lambda>w. uuid_in (snd (snd w)) = uuid_in (item_id r)) (writes columns)"
proof (rule filter_cong[OF refl])
  fix w assume "w \<in> set (writes columns)"
  then have "uuid_in (snd (snd w)) \<noteq> None" using assms(1) by (simp add: payload_writes)
  then show "changes u r w = (uuid_in (snd (snd w)) = uuid_in (item_id r))"
    using assms(2) by (auto simp: changes_def)
qed

lemma reorderItems_untouched:
  assumes "lastWrite (\<lambda>z. uuid_in z = uuid_in (item_id r)) columns = None
           \<or> uuid_in (projectId r) \<noteq> Some u"
  shows "filter (changes u r) (writes columns) = []"
proof (rule ccontr)
  assume "filter (changes u r) (writes columns) \<noteq> []"
  then obtain w where w: "w \<in> set (writes columns)" "changes u r w"
    by (auto simp: filter_empty_conv)
  from w(2) have p: "uuid_in (projectId r) = Some u"
    and e: "uuid_in (snd (snd w)) = uuid_in (item_id r)"
    by (simp_all add: changes_def)
  from assms p have "filter (\<lambda>w. uuid_in (snd (snd w)) = uuid_in (item_id r)) (writes columns) = []"
    by (auto dest: lastWrite_None)
  with w(1) e show False by (auto simp: filter_empty_conv)
qed

lemma reorderItems_row:
  assumes "uuid_in pid = Some u"
      and "list_ex (\<lambda>p. uuid_in (proj_id p) = Some u) (projects d)"
      and "\<forall>x \<in> set (payload columns). uuid_in x \<noteq> None"
      and "j < length (items d)"
  shows "(lastWrite (\<lambda>z. uuid_in z = uuid_in (item_id (items d ! j))) columns = None
            \<or> uuid_in (projectId (items d ! j)) \<noteq> Some u \<longrightarrow>
          items (snd (reorderItems now pid columns d)) ! j = items d ! j)
       \<and> (uuid_in (projectId (items d ! j)) = Some u \<and>
          lastWrite (\<lambda>z. uuid_in z = uuid_in (item_id (items d ! j))) columns = Some (st, k, y) \<longrightarrow>
          items (snd (reorderItems now pid columns d)) ! j =
            (items d ! j)\<lparr>status := st, position := Some (int k + 1), updatedAt := now\<rparr>)"
proof (intro conjI impI)
  let ?r = "items d ! j"
  assume "lastWrite (\<lambda>z. uuid_in z = uuid_in (item_id ?r)) columns = None
            \<or> uuid_in (projectId ?r) \<noteq> Some u"
  from reorderItems_untouched[OF this]
  show "items (snd (reorderItems now pid columns d)) ! j = ?r"
    using assms(4) by (simp add: reorderItems_parsed[OF assms(1,2,3)])
next
  let ?r = "items d ! j"
  assume a: "uuid_in (projectId ?r) = Some u \<and>
          lastWrite (\<lambda>z. uuid_in z = uuid_in (item_id ?r)) columns = Some (st, k, y)"
  from lastWrite_Some[of "\<lambda>z. uuid_in z = uuid_in (item_id ?r)" columns "(st, k, y)"] a
  obtain h hs where
    f: "filter (\<lambda>w. uuid_in (snd (snd w)) = uuid_in (item_id ?r)) (writes columns) = h # hs"
    and l: "last (h # hs) = (st, k, y)"
    by blast
  have "filter (changes u ?r) (writes columns) = h # hs"
    using changes_as_lastWrite[OF assms(3), of ?r u] a f by simp
  then have "items (snd (reorderItems now pid columns d)) ! j
               = stamp (\<lambda>st k. now) (last (h # hs)) ?r"
    using assms(4) by (simp add: reorderItems_parsed[OF assms(1,2,3)])
  then show "items (snd (reorderItems now pid columns d)) ! j =
            ?r\<lparr>status := st, position := Some (int k + 1), updatedAt := now\<rparr>"
    unfolding l by (simp add: stamp_def)
qed

subsection \<open>Both data layers\<close>

lemma ex_uuid_parsed: "uuid_in (ex_uuid CHR ''1'') = Some (replicate 16 17)"
  by code_simp

text \<open>
  Claim C10. In the file-backed data layer a reorder of an existing project succeeds
  whatever identifiers it names, and changes neither the projects nor the number of
  items. An item that the request does not name, or that belongs to another project, is
  left as it is; in particular a request made of unknown identifiers only changes
  nothing. The item found for an identifier gets the status and the index of the last
  write that names it: the position is that index plus one, whatever the identifiers
  before it in the sequence matched. In the Postgres data layer identifiers are compared
  as UUIDs. When the project identifier and every identifier of the request can be read
  as a UUID, the same holds: rows that no identifier denotes are left alone, and a row
  gets the status and the index plus one of the last write that denotes it. When some
  identifier of the request cannot be read as a UUID, the request fails with the error of
  the database for one such identifier and the database is left as it was. In both
  examples the first identifier of the backlog sequence matches nothing, the two others
  get positions 2 and 3, and no item of the column has position 1.
\<close>

theorem unknown_ids_skipped_or_refused:
  "(list_ex (\<lambda>p. proj_id p = pid) (projects d) \<longrightarrow>
      (\<exists>its. fst (reorderItemsSync clock pid columns d) = Inr its)
    \<and> projects (snd (reorderItemsSync clock pid columns d)) = projects d
    \<and> length (items (snd (reorderItemsSync clock pid columns d))) = length (items d)
    \<and> (\<forall>j < length (items d).
          item_id (items d ! j) \<notin> set (payload columns) \<or> projectId (items d ! j) \<noteq> pid \<longrightarrow>
          items (snd (reorderItemsSync clock pid columns d)) ! j = items d ! j)
    \<and> (\<forall>x j st k y.
          findIndex (\<lambda>i. item_id i = x \<and> projectId i = pid) (items d) = Some j \<and>
          lastWrite (\<lambda>z. z = x) columns = Some (st, k, y) \<longrightarrow>
          items (snd (reorderItemsSync clock pid columns d)) ! j =
            (items d ! j)\<lparr>status := st, position := Some (int k + 1), updatedAt := clock st k\<rparr>))
   \<and> (uuid_in uid = Some u \<and> list_ex (\<lambda>p. uuid_in (proj_id p) = Some u) (projects db) \<longrightarrow>
        ((\<forall>x \<in> set (payload req). uuid_in x \<noteq> None) \<longrightarrow>
            (\<exists>its. fst (reorderItems now uid req db) = Inr its)
          \<and> projects (snd (reorderItems now uid req db)) = projects db
          \<and> length (items (snd (reorderItems now uid req db))) = length (items db)
          \<and> (\<forall>j < length (items db).
                (lastWrite (\<lambda>z. uuid_in z = uuid_in (item_id (items db ! j))) req = None
                   \<or> uuid_in (projectId (items db ! j)) \<noteq> Some u \<longrightarrow>
                 items (snd (reorderItems now uid req db)) ! j = items db ! j)
              \<and> (\<forall>st k y.
                   uuid_in (projectId (items db ! j)) = Some u \<and>
                   lastWrite (\<lambda>z. uuid_in z = uuid_in (item_id (items db ! j))) req
                     = Some (st, k, y) \<longrightarrow>
                   items (snd (reorderItems now uid req db)) ! j =
                     (items db ! j)\<lparr>status := st, position := Some (int k + 1),
                                     updatedAt := now\<rparr>)))
      \<and> ((\<exists>x \<in> set (payload req). uuid_in x = None) \<longrightarrow>
            (\<exists>x \<in> set (payload req). uuid_in x = None \<and>
               reorderItems now uid req db = (Inl (InvalidUuidSyntax x), db))))
   \<and> map (\<lambda>i. (item_id i, status i, position i))
          (items (snd (reorderItemsSync (\<lambda>st k. ''t1'') ''p'' ex_gap_columns ex_store)))
        = [(''a'', ''backlog'', Some 3), (''b'', ''backlog'', Some 2), (''c'', ''done'', Some 5)]
   \<and> map (\<lambda>i. (status i, position i))
          (items (snd (reorderItems ''t1'' (ex_uuid CHR ''1'') ex_uuid_columns ex_database)))
        = [(''backlog'', Some 3), (''backlog'', Some 2), (''done'', Some 5)]"
proof -
  have fb: "list_ex (\<lambda>p. proj_id p = pid) (projects d) \<longrightarrow>
      (\<exists>its. fst (reorderItemsSync clock pid columns d) = Inr its)
    \<and> projects (snd (reorderItemsSync clock pid columns d)) = projects d
    \<and> length (items (snd (reorderItemsSync clock pid columns d))) = length (items d)
    \<and> (\<forall>j < length (items d).
          item_id (items d ! j) \<notin> set (payload columns) \<or> projectId (items d ! j) \<noteq> pid \<longrightarrow>
          items (snd (reorderItemsSync clock pid columns d)) ! j = items d ! j)
    \<and> (\<forall>x j st k y.
          findIndex (\<lambda>i. item_id i = x \<and> projectId i = pid) (items d) = Some j \<and>
          lastWrite (\<lambda>z. z = x) columns = Some (st, k, y) \<longrightarrow>
          items (snd (reorderItemsSync clock pid columns d)) ! j =
            (items d ! j)\<lparr>status := st, position := Some (int k + 1), updatedAt := clock st k\<rparr>)"
  proof
    assume p: "list_ex (\<lambda>p. proj_id p = pid) (projects d)"
    note ok = reorderItemsSync_ok[OF p, of clock columns]
    have a: "\<exists>its. fst (reorderItemsSync clock pid columns d) = Inr its"
      by (simp add: ok)
    have b: "projects (snd (reorderItemsSync clock pid columns d)) = projects d"
      by (simp add: ok)
    have c: "length (items (snd (reorderItemsSync clock pid columns d))) = length (items d)"
      by (simp add: ok reorder_length)
    have e: "\<forall>j < length (items d).
          item_id (items d ! j) \<notin> set (payload columns) \<or> projectId (items d ! j) \<noteq> pid \<longrightarrow>
          items (snd (reorderItemsSync clock pid columns d)) ! j = items d ! j"
      by (simp add: ok reorder_unnamed)
    have f: "\<forall>x j st k y.
          findIndex (\<lambda>i. item_id i = x \<and> projectId i = pid) (items d) = Some j \<and>
          lastWrite (\<lambda>z. z = x) columns = Some (st, k, y) \<longrightarrow>
          items (snd (reorderItemsSync clock pid columns d)) ! j =
            (items d ! j)\<lparr>status := st, position := Some (int k + 1), updatedAt := clock st k\<rparr>"
      unfolding ok by (auto intro: reorder_last_write)
    from a b c e f show "(\<exists>its. fst (reorderItemsSync clock pid columns d) = Inr its)
    \<and> projects (snd (reorderItemsSync clock pid columns d)) = projects d
    \<and> length (items (snd (reorderItemsSync clock pid columns d))) = length (items d)
    \<and> (\<forall>j < length (items d).
          item_id (items d ! j) \<notin> set (payload columns) \<or> projectId (items d ! j) \<noteq> pid \<longrightarrow>
          items (snd (reorderItemsSync clock pid columns d)) ! j = items d ! j)
    \<and> (\<forall>x j st k y.
          findIndex (\<lambda>i. item_id i = x \<and> projectId i = pid) (items d) = Some j \<and>
          lastWrite (\<lambda>z. z = x) columns = Some (st, k, y) \<longrightarrow>
          items (snd (reorderItemsSync clock pid columns d)) ! j =
            (items d ! j)\<lparr>status := st, position := Some (int k + 1), updatedAt := clock st k\<rparr>)"
      by (intro conjI)
  qed
  have pg: "uuid_in uid = Some u \<and> list_ex (\<lambda>p. uuid_in (proj_id p) = Some u) (projects db) \<longrightarrow>
        ((\<forall>x \<in> set (payload req). uuid_in x \<noteq> None) \<longrightarrow>
            (\<exists>its. fst (reorderItems now uid req db) = Inr its)
          \<and> projects (snd (reorderItems now uid req db)) = projects db
          \<and> length (items (snd (reorderItems now uid req db))) = length (items db)
          \<and> (\<forall>j < length (items db).
                (lastWrite (\<lambda>z. uuid_in z = uuid_in (item_id (items db ! j))) req = None
                   \<or> uuid_in (projectId (items db ! j)) \<noteq> Some u \<longrightarrow>
                 items (snd (reorderItems now uid req db)) ! j = items db ! j)
              \<and> (\<forall>st k y.
                   uuid_in (projectId (items db ! j)) = Some u \<and>
                   lastWrite (\<lambda>z. uuid_in z = uuid_in (item_id (items db ! j))) req
                     = Some (st, k, y) \<longrightarrow>
                   items (snd (reorderItems now uid req db)) ! j =
                     (items db ! j)\<lparr>status := st, position := Some (int k + 1),
                                     updatedAt := now\<rparr>)))
      \<and> ((\<exists>x \<in> set (payload req). uuid_in x = None) \<longrightarrow>
            (\<exists>x \<in> set (payload req). uuid_in x = None \<and>
               reorderItems now uid req db = (Inl (InvalidUuidSyntax x), db)))"
  proof (intro impI conjI; (elim conjE)?)
    assume u: "uuid_in uid = Some u"
       and p: "list_ex (\<lambda>p. uuid_in (proj_id p) = Some u) (projects db)"
       and a: "\<forall>x \<in> set (payload req). uuid_in x \<noteq> None"
    note ok = reorderItems_parsed[OF u p a, of now]
    show "\<exists>its. fst (reorderItems now uid req db) = Inr its" by (simp add: ok)
    show "projects (snd (reorderItems now uid req db)) = projects db" by (simp add: ok)
    show "length (items (snd (reorderItems now uid req db))) = length (items db)"
      by (simp add: ok)
    show "\<forall>j < length (items db).
                (lastWrite (\<lambda>z. uuid_in z = uuid_in (item_id (items db ! j))) req = None
                   \<or> uuid_in (projectId (items db ! j)) \<noteq> Some u \<longrightarrow>
                 items (snd (reorderItems now uid req db)) ! j = items db ! j)
              \<and> (\<forall>st k y.
                   uuid_in (projectId (items db ! j)) = Some u \<and>
                   lastWrite (\<lambda>z. uuid_in z = uuid_in (item_id (items db ! j))) req
                     = Some (st, k, y) \<longrightarrow>
                   items (snd (reorderItems now uid req db)) ! j =
                     (items db ! j)\<lparr>status := st, position := Some (int k + 1),
                                     updatedAt := now\<rparr>)"
    proof (intro allI impI)
      fix j assume j: "j < length (items db)"
      from reorderItems_row[OF u p a j, of now]
      show "(lastWrite (\<lambda>z. uuid_in z = uuid_in (item_id (items db ! j))) req = None
                   \<or> uuid_in (projectId (items db ! j)) \<noteq> Some u \<longrightarrow>
                 items (snd (reorderItems now uid req db)) ! j = items db ! j)
              \<and> (\<forall>st k y.
                   uuid_in (projectId (items db ! j)) = Some u \<and>
                   lastWrite (\<lambda>z. uuid_in z = uuid_in (item_id (items db ! j))) req
                     = Some (st, k, y) \<longrightarrow>
                   items (snd (reorderItems now uid req db)) ! j =
                     (items db ! j)\<lparr>status := st, position := Some (int k + 1),
                                     updatedAt := now\<rparr>)"
        by blast
    qed
  next
    assume u: "uuid_in uid = Some u"
       and p: "list_ex (\<lambda>p. uuid_in (proj_id p) = Some u) (projects db)"
       and a: "\<exists>x \<in> set (payload req). uuid_in x = None"
    show "\<exists>x \<in> set (payload req). uuid_in x = None \<and>
               reorderItems now uid req db = (Inl (InvalidUuidSyntax x), db)"
      by (rule reorderItems_unparsed[OF u p a])
  qed
  have c1: "map (\<lambda>i. (item_id i, status i, position i))
          (items (snd (reorderItemsSync (\<lambda>st k. ''t1'') ''p'' ex_gap_columns ex_store)))
        = [(''a'', ''backlog'', Some 3), (''b'', ''backlog'', Some 2), (''c'', ''done'', Some 5)]"
    by code_simp
  have c2: "map (\<lambda>i. (status i, position i))
          (items (snd (reorderItems ''t1'' (ex_uuid CHR ''1'') ex_uuid_columns ex_database)))
        = [(''backlog'', Some 3), (''backlog'', Some 2), (''done'', Some 5)]"
    by code_simp
  from fb pg c1 c2 show ?thesis by (intro conjI)
qed

theorem unknown_ids_skipped_or_refused_witness:
  "list_ex (\<lambda>p. proj_id p = ''p'') (projects ex_store)
   \<and> (\<exists>its. fst (reorderItemsSync (\<lambda>st k. ''t1'') ''p'' ex_gap_columns ex_store) = Inr its)
   \<and> 2 < length (items ex_store)
   \<and> item_id (items ex_store ! 2) \<notin> set (payload ex_gap_columns)
   \<and> items (snd (reorderItemsSync (\<lambda>st k. ''t1'') ''p'' ex_gap_columns ex_store)) ! 2
       = items ex_store ! 2
   \<and> findIndex (\<lambda>i. item_id i = ''b'' \<and> projectId i = ''p'') (items ex_store) = Some 1
   \<and> lastWrite (\<lambda>z. z = ''b'') ex_gap_columns = Some (''backlog'', 1, ''b'')
   \<and> items (snd (reorderItemsSync (\<lambda>st k. ''t1'') ''p'' ex_gap_columns ex_store)) ! 1
       = (items ex_store ! 1)\<lparr>status := ''backlog'', position := Some 2, updatedAt := ''t1''\<rparr>
   \<and> uuid_in (ex_uuid CHR ''1'') = Some (replicate 16 17)
   \<and> list_ex (\<lambda>p. uuid_in (proj_id p) = Some (replicate 16 17)) (projects ex_database)
   \<and> map uuid_in (payload ex_uuid_columns)
       = [Some (replicate 16 255), Some (replicate 16 187), Some (replicate 16 170)]
   \<and> (\<exists>its. fst (reorderItems ''t1'' (ex_uuid CHR ''1'') ex_uuid_columns ex_database) = Inr its)
   \<and> lastWrite (\<lambda>z. uuid_in z = uuid_in (item_id (items ex_database ! 2))) ex_uuid_columns = None
   \<and> items (snd (reorderItems ''t1'' (ex_uuid CHR ''1'') ex_uuid_columns ex_database)) ! 2
       = items ex_database ! 2
   \<and> uuid_in (projectId (items ex_database ! 1)) = Some (replicate 16 17)
   \<and> lastWrite (\<lambda>z. uuid_in z = uuid_in (item_id (items ex_database ! 1))) ex_uuid_columns
       = Some (''backlog'', 1, ex_uuid CHR ''b'')
   \<and> items (snd (reorderItems ''t1'' (ex_uuid CHR ''1'') ex_uuid_columns ex_database)) ! 1
       = (items ex_database ! 1)\<lparr>status := ''backlog'', position := Some 2, updatedAt := ''t1''\<rparr>
   \<and> ''zz'' \<in> set (payload ex_text_columns)
   \<and> uuid_in ''zz'' = None
   \<and> snd (reorderItems ''t1'' (ex_uuid CHR ''1'') ex_text_columns ex_database) = ex_database
   \<and> (\<exists>x. fst (reorderItems ''t1'' (ex_uuid CHR ''1'') ex_text_columns ex_database)
            = Inl (InvalidUuidSyntax x))"
proof -
  have p: "list_ex (\<lambda>p. proj_id p = ''p'') (projects ex_store)" by code_simp
  have l: "2 < length (items ex_store)" by code_simp
  have n: "item_id (items ex_store ! 2) \<notin> set (payload ex_gap_columns)" by code_simp
  have f: "findIndex (\<lambda>i. item_id i = ''b'' \<and> projectId i = ''p'') (items ex_store) = Some 1"
    by code_simp
  have w: "lastWrite (\<lambda>z. z = ''b'') ex_gap_columns = Some (''backlog'', 1, ''b'')" by code_simp
  have u: "uuid_in (ex_uuid CHR ''1'') = Some (replicate 16 17)" by (rule ex_uuid_parsed)
  have q: "list_ex (\<lambda>p. uuid_in (proj_id p) = Some (replicate 16 17)) (projects ex_database)"
    by code_simp
  have m: "map uuid_in (payload ex_uuid_columns)
       = [Some (replicate 16 255), Some (replicate 16 187), Some (replicate 16 170)]"
    by code_simp
  have a: "\<forall>x \<in> set (payload ex_uuid_columns). uuid_in x \<noteq> None"
  proof
    fix x assume "x \<in> set (payload ex_uuid_columns)"
    then have "uuid_in x \<in> set (map uuid_in (payload ex_uuid_columns))" by simp
    then show "uuid_in x \<noteq> None" unfolding m by auto
  qed
  have l2: "2 < length (items ex_database)" by code_simp
  have l1: "1 < length (items ex_database)" by code_simp
  have w2: "lastWrite (\<lambda>z. uuid_in z = uuid_in (item_id (items ex_database ! 2))) ex_uuid_columns
              = None"
    by code_simp
  have r1: "uuid_in (projectId (items ex_database ! 1)) = Some (replicate 16 17)" by code_simp
  have w1: "lastWrite (\<lambda>z. uuid_in z = uuid_in (item_id (items ex_database ! 1))) ex_uuid_columns
       = Some (''backlog'', 1, ex_uuid CHR ''b'')"
    by code_simp
  have z: "''zz'' \<in> set (payload ex_text_columns)" by code_simp
  have zn: "uuid_in ''zz'' = None" by code_simp
  have b: "\<exists>x \<in> set (payload ex_text_columns). uuid_in x = None" using z zn by blast
  note good = unknown_ids_skipped_or_refused[where pid = "''p''" and d = ex_store
      and clock = "\<lambda>st k. ''t1''" and columns = ex_gap_columns
      and uid = "ex_uuid CHR ''1''" and u = "replicate 16 17" and db = ex_database
      and req = ex_uuid_columns and now = "''t1''"]
  note bad = unknown_ids_skipped_or_refused[where pid = "''p''" and d = ex_store
      and clock = "\<lambda>st k. ''t1''" and columns = ex_gap_columns
      and uid = "ex_uuid CHR ''1''" and u = "replicate 16 17" and db = ex_database
      and req = ex_text_columns and now = "''t1''"]
  from good p have s1:
    "\<exists>its. fst (reorderItemsSync (\<lambda>st k. ''t1'') ''p'' ex_gap_columns ex_store) = Inr its"
    by blast
  from good p l n have s2:
    "items (snd (reorderItemsSync (\<lambda>st k. ''t1'') ''p'' ex_gap_columns ex_store)) ! 2
       = items ex_store ! 2"
    by blast
  from good p f w have s3:
    "items (snd (reorderItemsSync (\<lambda>st k. ''t1'') ''p'' ex_gap_columns ex_store)) ! 1
       = (items ex_store ! 1)\<lparr>status := ''backlog'', position := Some (int 1 + 1),
                               updatedAt := ''t1''\<rparr>"
    by blast
  from good u q a have s4:
    "\<exists>its. fst (reorderItems ''t1'' (ex_uuid CHR ''1'') ex_uuid_columns ex_database) = Inr its"
    by blast
  from good u q a l2 w2 have s5:
    "items (snd (reorderItems ''t1'' (ex_uuid CHR ''1'') ex_uuid_columns ex_database)) ! 2
       = items ex_database ! 2"
    by blast
  from good u q a l1 r1 w1 have s6:
    "items (snd (reorderItems ''t1'' (ex_uuid CHR ''1'') ex_uuid_columns ex_database)) ! 1
       = (items ex_database ! 1)\<lparr>status := ''backlog'', position := Some (int 1 + 1),
                                  updatedAt := ''t1''\<rparr>"
    by blast
  from bad u q b obtain x where
    x: "reorderItems ''t1'' (ex_uuid CHR ''1'') ex_text_columns ex_database
          = (Inl (InvalidUuidSyntax x), ex_database)"
    by blast
  have s7: "snd (reorderItems ''t1'' (ex_uuid CHR ''1'') ex_text_columns ex_database) = ex_database"
    by (simp add: x)
  have s8: "\<exists>x. fst (reorderItems ''t1'' (ex_uuid CHR ''1'') ex_text_columns ex_database)
            = Inl (InvalidUuidSyntax x)"
    by (simp add: x)
  from s3 have s3': "items (snd (reorderItemsSync (\<lambda>st k. ''t1'') ''p'' ex_gap_columns ex_store)) ! 1
       = (items ex_store ! 1)\<lparr>status := ''backlog'', position := Some 2, updatedAt := ''t1''\<rparr>"
    by simp
  from s6 have s6': "items (snd (reorderItems ''t1'' (ex_uuid CHR ''1'') ex_uuid_columns ex_database)) ! 1
       = (items ex_database ! 1)\<lparr>status := ''backlog'', position := Some 2, updatedAt := ''t1''\<rparr>"
    by simp
  from p s1 l n s2 f w s3' u q m s4 w2 s5 r1 w1 s6' z zn s7 s8 show ?thesis
    by (intro conjI)
qed

text \<open>
  The database of the example holds no row with the identifier \<open>zz\<close>, and the request
  names \<open>zz\<close> first in the backlog sequence. The Postgres data layer raises the error of
  the database and changes nothing, where the file-backed data layer, given the same
  store and request, succeeds and gives the two other items the positions 2 and 3.
\<close>

theorem text_identifier_fails_the_request:
  "uuid_in (ex_uuid CHR ''1'') = Some (replicate 16 17)
   \<and> list_ex (\<lambda>p. uuid_in (proj_id p) = Some (replicate 16 17)) (projects ex_database)
   \<and> ''zz'' \<in> set (payload ex_text_columns)
   \<and> findIndex (\<lambda>i. item_id i = ''zz'') (items ex_database) = None
   \<and> reorderItems ''t1'' (ex_uuid CHR ''1'') ex_text_columns ex_database
       = (Inl (InvalidUuidSyntax ''zz''), ex_database)
   \<and> map (\<lambda>i. (status i, position i))
         (items (snd (reorderItemsSync (\<lambda>st k. ''t1'') (ex_uuid CHR ''1'') ex_text_columns
                        ex_database)))
       = [(''backlog'', Some 3), (''backlog'', Some 2), (''done'', Some 5)]"
  by code_simp

section \<open>Requests that name every item once\<close>

lemma distinct_map_filter_nth:
  assumes "distinct (map f (filter P xs))" and "i < j" and "j < length xs"
      and "P (xs ! i)" and "P (xs ! j)"
  shows "f (xs ! i) \<noteq> f (xs ! j)"
proof -
  have i: "i < length xs" using assms(2,3) by simp
  have split: "xs = take i xs @ xs ! i # drop (Suc i) xs" by (rule id_take_nth_drop[OF i])
  have "xs ! j = drop (Suc i) xs ! (j - Suc i)" using assms(2,3) by simp
  moreover have "j - Suc i < length (drop (Suc i) xs)" using assms(2,3) by simp
  ultimately have m: "xs ! j \<in> set (drop (Suc i) xs)" by (metis nth_mem)
  have "distinct (map f (filter P (take i xs @ xs ! i # drop (Suc i) xs)))"
    using assms(1) split by simp
  then have "f (xs ! i) \<notin> f ` set (filter P (drop (Suc i) xs))"
    using assms(4) by simp
  with m assms(5) show ?thesis by auto
qed

lemma full_findIndex:
  assumes "distinct (map item_id (filter (\<lambda>i. projectId i = pid) its))"
      and "j < length its" and "projectId (its ! j) = pid"
  shows "findIndex (\<lambda>i. item_id i = item_id (its ! j) \<and> projectId i = pid) its = Some j"
proof (rule findIndex_SomeI)
  show "j < length its" by (rule assms(2))
  show "item_id (its ! j) = item_id (its ! j) \<and> projectId (its ! j) = pid" using assms(3) by simp
  fix i assume "i < j"
  show "\<not> (item_id (its ! i) = item_id (its ! j) \<and> projectId (its ! i) = pid)"
  proof
    assume c: "item_id (its ! i) = item_id (its ! j) \<and> projectId (its ! i) = pid"
    from distinct_map_filter_nth[OF assms(1) \<open>i < j\<close> assms(2)] c assms(3)
    show False by simp
  qed
qed

lemma distinct_count_list: "distinct xs \<Longrightarrow> x \<in> set xs \<Longrightarrow> count_list xs x = 1"
  by (induction xs) (auto simp: count_list_0_iff)

lemma full_count:
  "distinct (payload columns) \<Longrightarrow> x \<in> set (payload columns) \<Longrightarrow>
   count_list (payload columns) x = 1"
  by (rule distinct_count_list)

lemma payload_place:
  "x \<in> set (payload columns) \<longleftrightarrow>
     (\<exists>st k. st \<in> set VALID_STATUSES \<and> k < length (orderedIds columns st) \<and>
             orderedIds columns st ! k = x)"
proof -
  have "x \<in> set (payload columns) \<longleftrightarrow> (\<exists>st k. (st, k, x) \<in> set (writes columns))"
    by (force simp: payload_writes)
  then show ?thesis by (simp add: writes_mem)
qed

lemma reorder_full_nth:
  assumes "namesEveryItemOnce pid columns its" and "j < length its"
      and "projectId (its ! j) = pid"
  shows "\<exists>st k. st \<in> set VALID_STATUSES \<and> k < length (orderedIds columns st) \<and>
           orderedIds columns st ! k = item_id (its ! j) \<and>
           fold (reorderColumn pid clock columns) VALID_STATUSES its ! j =
             (its ! j)\<lparr>status := st, position := Some (int k + 1), updatedAt := clock st k\<rparr>"
proof -
  from assms(1) have d1: "distinct (payload columns)"
    and d2: "distinct (map item_id (filter (\<lambda>i. projectId i = pid) its))"
    and eq: "set (payload columns) = set (map item_id (filter (\<lambda>i. projectId i = pid) its))"
    by (simp_all add: namesEveryItemOnce_def)
  have "its ! j \<in> set (filter (\<lambda>i. projectId i = pid) its)" using assms(2,3) by simp
  then have x: "item_id (its ! j) \<in> set (payload columns)" unfolding eq by simp
  then obtain st k where
    p: "st \<in> set VALID_STATUSES" "k < length (orderedIds columns st)"
       "orderedIds columns st ! k = item_id (its ! j)"
    unfolding payload_place by blast
  have c: "count_list (payload columns) (orderedIds columns st ! k) = 1"
    using full_count[OF d1 x] p(3) by simp
  have f: "findIndex (\<lambda>i. item_id i = orderedIds columns st ! k \<and> projectId i = pid) its = Some j"
    using full_findIndex[OF d2 assms(2,3)] p(3) by simp
  from reorder_named_once[OF p(1,2) c f, of clock] p show ?thesis by blast
qed

lemma keys_filter_ids:
  "map item_id (filter (\<lambda>i. projectId i = pid) xs) = map fst (filter (\<lambda>k. snd k = pid) (keys xs))"
  by (induction xs) (simp_all add: keys_def)

lemma full_item_place:
  assumes "namesEveryItemOnce pid columns its"
      and "i \<in> set (fold (reorderColumn pid clock columns) VALID_STATUSES its)"
      and "projectId i = pid"
  shows "\<exists>k st. st \<in> set VALID_STATUSES \<and> k < length (orderedIds columns st) \<and>
           orderedIds columns st ! k = item_id i \<and> status i = st \<and> position i = Some (int k + 1)"
proof -
  let ?its' = "fold (reorderColumn pid clock columns) VALID_STATUSES its"
  from assms(2) obtain j where j: "j < length ?its'" "?its' ! j = i"
    by (auto simp: in_set_conv_nth)
  then have jl: "j < length its" by (simp add: reorder_length)
  have "projectId (its ! j) = projectId (?its' ! j)"
    using keys_nth[OF reorder_keys[of pid clock columns its], of j] j(1) by simp
  then have pj: "projectId (its ! j) = pid" using j(2) assms(3) by simp
  from reorder_full_nth[OF assms(1) jl pj, of clock] obtain st k where
    "st \<in> set VALID_STATUSES" "k < length (orderedIds columns st)"
    "orderedIds columns st ! k = item_id (its ! j)"
    "?its' ! j = (its ! j)\<lparr>status := st, position := Some (int k + 1), updatedAt := clock st k\<rparr>"
    by blast
  then show ?thesis using j(2) by (intro exI[of _ k] exI[of _ st]) auto
qed

lemma full_place_item:
  assumes "namesEveryItemOnce pid columns its"
      and "st \<in> set VALID_STATUSES" and "k < length (orderedIds columns st)"
  shows "\<exists>i \<in> set (fold (reorderColumn pid clock columns) VALID_STATUSES its).
           projectId i = pid \<and> item_id i = orderedIds columns st ! k \<and> status i = st \<and>
           position i = Some (int k + 1)"
proof -
  let ?its' = "fold (reorderColumn pid clock columns) VALID_STATUSES its"
  let ?x = "orderedIds columns st ! k"
  from assms(1) have d1: "distinct (payload columns)"
    and d2: "distinct (map item_id (filter (\<lambda>i. projectId i = pid) its))"
    and eq: "set (payload columns) = set (map item_id (filter (\<lambda>i. projectId i = pid) its))"
    by (simp_all add: namesEveryItemOnce_def)
  have x: "?x \<in> set (payload columns)" unfolding payload_place using assms(2,3) by blast
  then obtain i0 where i0: "i0 \<in> set its" "projectId i0 = pid" "item_id i0 = ?x"
    unfolding eq by auto
  then obtain j where j: "j < length its" "its ! j = i0" by (auto simp: in_set_conv_nth)
  have f: "findIndex (\<lambda>i. item_id i = ?x \<and> projectId i = pid) its = Some j"
    using full_findIndex[OF d2 j(1)] j(2) i0 by simp
  have n: "?its' ! j = (its ! j)\<lparr>status := st, position := Some (int k + 1),
                                   updatedAt := clock st k\<rparr>"
    by (rule reorder_named_once[OF assms(2,3) full_count[OF d1 x] f])
  have "?its' ! j \<in> set ?its'" using j(1) by (simp add: reorder_length)
  then show ?thesis using n j(2) i0 by (intro bexI[of _ "?its' ! j"]) auto
qed

lemma sorted_const_key:
  "sorted (map (\<lambda>i. (c :: nat, g i :: int)) xs) = sorted (map g xs)"
  by (induction xs) (auto simp: less_eq_prod_def)

lemma sorted_succ_upt: "sorted (map (\<lambda>k. int k + 1) [0..<n])"
  by (induction n) (auto simp: sorted_append)

lemma sorted_column:
  assumes st: "\<forall>i \<in> set B. status i = st"
      and place: "\<forall>i \<in> set B. \<exists>k < length ids. ids ! k = item_id i \<and> position i = Some (int k + 1)"
      and onto: "\<forall>k < length ids. \<exists>i \<in> set B. item_id i = ids ! k \<and> position i = Some (int k + 1)"
      and dist: "distinct (map item_id B)"
  shows "map item_id (sortItems B) = ids
       \<and> map position (sortItems B) = map (\<lambda>k. Some (int k + 1)) [0..<length ids]"
proof -
  let ?C = "sortItems B"
  let ?K = "\<lambda>i. (statusOrder (status i), pos0 i)"
  have setC: "set ?C = set B" by (simp add: sortItems_def)
  have pos: "\<And>i. i \<in> set B \<Longrightarrow> position i = Some (pos0 i) \<and> 0 < pos0 i \<and>
               nat (pos0 i - 1) < length ids \<and> ids ! nat (pos0 i - 1) = item_id i"
  proof -
    fix i assume "i \<in> set B"
    with place obtain k where "k < length ids" "ids ! k = item_id i" "position i = Some (int k + 1)"
      by blast
    then show "position i = Some (pos0 i) \<and> 0 < pos0 i \<and>
               nat (pos0 i - 1) < length ids \<and> ids ! nat (pos0 i - 1) = item_id i"
      by (simp add: pos0_def)
  qed
  have inj: "inj_on pos0 (set B)"
  proof (rule inj_onI)
    fix a b assume ab: "a \<in> set B" "b \<in> set B" "pos0 a = pos0 b"
    from pos[OF ab(1)] pos[OF ab(2)] ab(3) have "item_id a = item_id b" by metis
    with dist ab(1,2) show "a = b" by (auto simp: distinct_map dest: inj_onD)
  qed
  have dB: "distinct B" using dist by (simp add: distinct_map)
  have "sorted (map ?K ?C)" unfolding sortItems_def by (rule sorted_sort_key)
  moreover have "map ?K ?C = map (\<lambda>i. (statusOrder st, pos0 i)) ?C"
    using st setC by (intro map_cong) auto
  ultimately have s1: "sorted (map pos0 ?C)" by (simp add: sorted_const_key)
  have d1: "distinct (map pos0 ?C)"
    using dB inj setC by (simp add: distinct_map sortItems_def)
  have "pos0 ` set B = (\<lambda>k. int k + 1) ` {0..<length ids}"
  proof (intro set_eqI iffI)
    fix p assume "p \<in> pos0 ` set B"
    then obtain i where i: "i \<in> set B" "p = pos0 i" by blast
    from pos[OF i(1)] have "p = int (nat (pos0 i - 1)) + 1" "nat (pos0 i - 1) < length ids"
      using i(2) by simp_all
    then show "p \<in> (\<lambda>k. int k + 1) ` {0..<length ids}" by (auto intro!: image_eqI)
  next
    fix p assume "p \<in> (\<lambda>k. int k + 1) ` {0..<length ids}"
    then obtain k where k: "k < length ids" "p = int k + 1" by auto
    with onto obtain i where "i \<in> set B" "position i = Some (int k + 1)" by blast
    then show "p \<in> pos0 ` set B" using k(2) by (auto simp: pos0_def intro!: image_eqI[of _ _ i])
  qed
  then have e1: "set (map pos0 ?C) = set (map (\<lambda>k. int k + 1) [0..<length ids])"
    using setC by simp
  have d2: "distinct (map (\<lambda>k. int k + 1) [0..<length ids])"
    by (simp add: distinct_map inj_on_def)
  have P: "map pos0 ?C = map (\<lambda>k. int k + 1) [0..<length ids]"
    by (rule sorted_distinct_set_unique[OF s1 d1 sorted_succ_upt d2 e1])
  have "map item_id ?C = map (\<lambda>i. ids ! nat (pos0 i - 1)) ?C"
    using pos setC by (intro map_cong) auto
  also have "\<dots> = map (\<lambda>p. ids ! nat (p - 1)) (map pos0 ?C)" by (simp add: comp_def)
  also have "\<dots> = map (\<lambda>k. ids ! k) [0..<length ids]" unfolding P by (simp add: comp_def)
  also have "\<dots> = ids" by (rule map_nth)
  finally have I: "map item_id ?C = ids" .
  have "map position ?C = map (\<lambda>i. Some (pos0 i)) ?C"
    using pos setC by (intro map_cong) auto
  also have "\<dots> = map Some (map pos0 ?C)" by (simp add: comp_def)
  also have "\<dots> = map (\<lambda>k. Some (int k + 1)) [0..<length ids]" unfolding P by (simp add: comp_def)
  finally show ?thesis using I by simp
qed

section \<open>Unique positions within a column\<close>

lemma distinct_pair_columns:
  "distinct (map (\<lambda>x. (g x, f x)) xs) \<longleftrightarrow> (\<forall>c. distinct (map f (filter (\<lambda>x. g x = c) xs)))"
proof (induction xs)
  case Nil
  then show ?case by simp
next
  case (Cons a xs)
  have "(g a, f a) \<notin> (\<lambda>x. (g x, f x)) ` set xs \<longleftrightarrow> f a \<notin> f ` set (filter (\<lambda>x. g x = g a) xs)"
    by (force simp: image_iff)
  then show ?case using Cons.IH by auto
qed

lemma uniquePositions_columns:
  "uniquePositions d \<longleftrightarrow>
     (\<forall>p st. distinct (map pos0 (filter (\<lambda>i. projectId i = p \<and> status i = st) (items d))))"
proof -
  have "uniquePositions d \<longleftrightarrow>
        distinct (map (\<lambda>i. ((projectId i, status i), pos0 i)) (items d))"
    unfolding uniquePositions_def
    by (simp add: distinct_map inj_on_def)
  also have "\<dots> \<longleftrightarrow> (\<forall>c. distinct (map pos0 (filter (\<lambda>i. (projectId i, status i) = c) (items d))))"
    by (rule distinct_pair_columns)
  finally show ?thesis by simp
qed

lemma column_strictly_increasing:
  assumes "uniquePositions d"
  shows "sorted_wrt (<) (map pos0 (filter (\<lambda>i. status i = st) (getItemsByProjectSync p d)))"
proof -
  let ?B = "filter (\<lambda>i. status i = st) (filter (\<lambda>i. projectId i = p) (items d))"
  let ?K = "\<lambda>i. (statusOrder (status i), pos0 i)"
  have c: "filter (\<lambda>i. status i = st) (getItemsByProjectSync p d) = sort_key ?K ?B"
    by (simp add: getItemsByProjectSync_def sortItems_def filter_sort)
  have "sorted (map ?K (sort_key ?K ?B))" by (rule sorted_sort_key)
  moreover have "map ?K (sort_key ?K ?B) = map (\<lambda>i. (statusOrder st, pos0 i)) (sort_key ?K ?B)"
    by (intro map_cong) auto
  ultimately have s: "sorted (map pos0 (sort_key ?K ?B))" by (simp only: sorted_const_key)
  have "distinct (map pos0 ?B)"
    using assms unfolding uniquePositions_columns by (simp add: conj_commute)
  then have "distinct ?B \<and> inj_on pos0 (set ?B)" by (simp add: distinct_map)
  then have "distinct (map pos0 (sort_key ?K ?B))" by (simp add: distinct_map)
  with s show ?thesis unfolding c by (simp add: strict_sorted_iff)
qed

lemma nextPosition_fresh:
  assumes "i \<in> set (items d)" and "projectId i = pid" and "status i = st"
  shows "pos0 i < nextPositionForStatus d pid st"
proof -
  let ?col = "filter (\<lambda>i. projectId i = pid \<and> status i = st) (items d)"
  have m: "i \<in> set ?col" using assms by simp
  have ne: "?col \<noteq> []" by (metis m empty_iff empty_set)
  have "pos0 i \<le> Max (set (map pos0 ?col))" using m by (intro Max_ge) auto
  then show ?thesis using ne by (simp add: nextPositionForStatus_rule Let_def)
qed

lemma nextPosition_key_fresh:
  "(pid, st, nextPositionForStatus d pid st) \<notin> set (map (\<lambda>i. (projectId i, status i, pos0 i)) (items d))"
proof
  assume "(pid, st, nextPositionForStatus d pid st) \<in> set (map (\<lambda>i. (projectId i, status i, pos0 i)) (items d))"
  then obtain i where "i \<in> set (items d)" "projectId i = pid" "status i = st"
    "pos0 i = nextPositionForStatus d pid st" by auto
  with nextPosition_fresh[of i d pid st] show False by simp
qed

lemma createItemSync_Inl: "createItemSync newId t1 t2 pid inp d = (Inl e, d') \<Longrightarrow> d' = d"
  by (auto simp: createItemSync_def Let_def split: if_splits option.splits)

lemma updateItemSync_Inl: "updateItemSync now pid itemId upd d = (Inl e, d') \<Longrightarrow> d' = d"
  by (auto simp: updateItemSync_def Let_def split: if_splits option.splits sum.splits)

lemma create_keeps_unique:
  assumes "uniquePositions d"
  shows "uniquePositions (snd (createItemSync newId t1 t2 pid inp d))"
proof (cases "createItemSync newId t1 t2 pid inp d")
  case (Pair r d')
  show ?thesis
  proof (cases r)
    case (Inl e)
    with Pair createItemSync_Inl[of newId t1 t2 pid inp d e d'] assms show ?thesis by simp
  next
    case (Inr it)
    from createItemSync_Inr[of newId t1 t2 pid inp d it d'] Pair Inr
    have f: "projectId it = pid" "position it = Some (nextPositionForStatus d pid (status it))"
        "items d' = items d @ [it]" by simp_all
    have "(projectId it, status it, pos0 it) = (pid, status it, nextPositionForStatus d pid (status it))"
      using f by (simp add: pos0_def)
    with nextPosition_key_fresh[of pid "status it" d] assms f(3) Pair
    show ?thesis by (simp add: uniquePositions_def)
  qed
qed

lemma update_keeps_unique:
  assumes "uniquePositions d"
  shows "uniquePositions (snd (updateItemSync now pid itemId upd d))"
proof (cases "updateItemSync now pid itemId upd d")
  case (Pair r d')
  show ?thesis
  proof (cases r)
    case (Inl e)
    with Pair updateItemSync_Inl[of now pid itemId upd d e d'] assms show ?thesis by simp
  next
    case (Inr it')
    let ?K = "\<lambda>i. (projectId i, status i, pos0 i)"
    from updateItemSync_Inr[of now pid itemId upd d it' d'] Pair Inr obtain j where
      j: "findIndex (\<lambda>i. item_id i = itemId \<and> projectId i = pid) (items d) = Some j"
      and u: "items d' = (items d)[j := it']" "projectId it' = projectId (items d ! j)"
      and c: "(case in_status upd of
           None \<Rightarrow> status it' = status (items d ! j) \<and> position it' = position (items d ! j)
         | Some s \<Rightarrow> s \<in> set VALID_STATUSES \<and> status it' = s \<and>
             (if s \<noteq> status (items d ! j)
              then position it' = Some (nextPositionForStatus d pid s)
              else position it' = position (items d ! j)))"
      by auto
    from findIndex_Some_less[OF j] have jl: "j < length (items d)" and pj: "projectId (items d ! j) = pid"
      by simp_all
    have "?K it' = ?K (items d ! j) \<or> ?K it' = (pid, status it', nextPositionForStatus d pid (status it'))"
      using c u(2) pj by (auto simp: pos0_def split: option.splits if_splits)
    then have "?K it' \<notin> set (map ?K (items d)) - {map ?K (items d) ! j}"
      using nextPosition_key_fresh[of pid "status it'" d] jl by auto
    with assms have "distinct ((map ?K (items d))[j := ?K it'])"
      unfolding uniquePositions_def by (intro distinct_list_update)
    then show ?thesis using Pair u(1) by (simp add: uniquePositions_def map_update)
  qed
qed

lemma deleteItem_keeps_unique:
  assumes "uniquePositions d"
  shows "uniquePositions (snd (deleteItemSync pid itemId d))"
  using assms
  by (auto simp: deleteItemSync_def uniquePositions_def map_splice1 distinct_splice1
           split: option.splits)

lemma deleteProject_keeps_unique:
  assumes "uniquePositions d"
  shows "uniquePositions (snd (deleteProjectSync pid d))"
  using assms
  by (auto simp: deleteProjectSync_def uniquePositions_def distinct_map_filter split: option.splits)

lemma createProject_keeps_unique:
  assumes "uniquePositions d"
  shows "uniquePositions (snd (createProjectSync newId now inp d))"
  using assms
  by (auto simp: createProjectSync_def uniquePositions_def Let_def split: option.splits)

lemma reorder_full_keeps_unique:
  assumes "uniquePositions d" and "namesEveryItemOnce pid columns (items d)"
  shows "uniquePositions (snd (reorderItemsSync clock pid columns d))"
proof (cases "list_ex (\<lambda>p. proj_id p = pid) (projects d)")
  case False
  with assms(1) show ?thesis by (simp add: reorderItemsSync_missing)
next
  case True
  let ?its = "items d"
  let ?its' = "fold (reorderColumn pid clock columns) VALID_STATUSES ?its"
  let ?K = "\<lambda>i. (projectId i, status i, pos0 i)"
  have d2: "distinct (map item_id (filter (\<lambda>i. projectId i = pid) ?its))"
    using assms(2) by (simp add: namesEveryItemOnce_def)
  have old: "\<And>a b. a < length ?its \<Longrightarrow> b < length ?its \<Longrightarrow> a \<noteq> b \<Longrightarrow> ?K (?its ! a) \<noteq> ?K (?its ! b)"
  proof -
    fix a b assume ab: "a < length ?its" "b < length ?its" "a \<noteq> b"
    from assms(1) have "distinct (map ?K ?its)" by (simp add: uniquePositions_def)
    from this[unfolded distinct_conv_nth, rule_format, of a b] ab
    show "?K (?its ! a) \<noteq> ?K (?its ! b)" by simp
  qed
  have proj: "\<And>a. a < length ?its \<Longrightarrow> projectId (?its' ! a) = projectId (?its ! a)"
    using keys_nth[OF reorder_keys[of pid clock columns ?its]] by (simp add: reorder_length)
  have ids: "\<And>a b. a < length ?its \<Longrightarrow> b < length ?its \<Longrightarrow> a \<noteq> b \<Longrightarrow>
        projectId (?its ! a) = pid \<Longrightarrow> projectId (?its ! b) = pid \<Longrightarrow>
        item_id (?its ! a) \<noteq> item_id (?its ! b)"
  proof -
    fix a b assume ab: "a < length ?its" "b < length ?its" "a \<noteq> b"
      "projectId (?its ! a) = pid" "projectId (?its ! b) = pid"
    show "item_id (?its ! a) \<noteq> item_id (?its ! b)"
    proof (cases "a < b")
      case True
      from distinct_map_filter_nth[OF d2 True ab(2)] ab(4,5) show ?thesis by simp
    next
      case False
      with ab(3) have "b < a" by simp
      from distinct_map_filter_nth[OF d2 this ab(1)] ab(4,5) show ?thesis by simp
    qed
  qed
  have "distinct (map ?K ?its')"
    unfolding distinct_conv_nth
  proof (intro allI impI)
    fix a b assume "a < length (map ?K ?its')" "b < length (map ?K ?its')" "a \<noteq> b"
    then have ab: "a < length ?its" "b < length ?its" "a \<noteq> b" by (simp_all add: reorder_length)
    have ab': "a < length ?its'" "b < length ?its'" using ab by (simp_all add: reorder_length)
    have "?K (?its' ! a) \<noteq> ?K (?its' ! b)"
    proof (cases "projectId (?its ! a) = pid")
      case pa: True
      show ?thesis
      proof (cases "projectId (?its ! b) = pid")
        case pb: True
        from reorder_full_nth[OF assms(2) ab(1) pa, of clock] obtain s1 k1 where
          a1: "orderedIds columns s1 ! k1 = item_id (?its ! a)"
              "?its' ! a = (?its ! a)\<lparr>status := s1, position := Some (int k1 + 1),
                                       updatedAt := clock s1 k1\<rparr>" by blast
        from reorder_full_nth[OF assms(2) ab(2) pb, of clock] obtain s2 k2 where
          b1: "orderedIds columns s2 ! k2 = item_id (?its ! b)"
              "?its' ! b = (?its ! b)\<lparr>status := s2, position := Some (int k2 + 1),
                                       updatedAt := clock s2 k2\<rparr>" by blast
        show ?thesis
        proof
          assume "?K (?its' ! a) = ?K (?its' ! b)"
          then have "s1 = s2 \<and> k1 = k2" unfolding a1(2) b1(2) by (simp add: pos0_def)
          with a1(1) b1(1) have "item_id (?its ! a) = item_id (?its ! b)" by simp
          with ids[OF ab pa pb] show False by simp
        qed
      next
        case False
        with pa proj[OF ab(1)] proj[OF ab(2)] show ?thesis by simp
      qed
    next
      case na: False
      show ?thesis
      proof (cases "projectId (?its ! b) = pid")
        case True
        with na proj[OF ab(1)] proj[OF ab(2)] show ?thesis by simp
      next
        case nb: False
        have "?its' ! a = ?its ! a" using reorder_unnamed[OF ab(1), of columns pid clock] na by simp
        moreover have "?its' ! b = ?its ! b" using reorder_unnamed[OF ab(2), of columns pid clock] nb by simp
        ultimately show ?thesis using old[OF ab] by simp
      qed
    qed
    then show "map ?K ?its' ! a \<noteq> map ?K ?its' ! b" using ab' by simp
  qed
  then show ?thesis by (simp add: reorderItemsSync_ok[OF True] uniquePositions_def)
qed

text \<open>
  Claim C2, as the code has it. In a store where no two items of a project and status share
  a position, every column shown is strictly increasing in position. Item creation, a
  single-item update, item deletion, project deletion and project creation keep the store
  so, whether they succeed or fail. A bulk reorder keeps it so when its sequences name
  every item of the project exactly once.
\<close>

theorem positions_stay_unique:
  assumes "uniquePositions d"
  shows "uniquePositions (snd (createItemSync newId t1 t2 pid inp d))
       \<and> uniquePositions (snd (updateItemSync now pid itemId upd d))
       \<and> uniquePositions (snd (deleteItemSync pid itemId d))
       \<and> uniquePositions (snd (deleteProjectSync pid d))
       \<and> uniquePositions (snd (createProjectSync newId now (nm, key) d))
       \<and> (namesEveryItemOnce pid columns (items d) \<longrightarrow>
            uniquePositions (snd (reorderItemsSync clock pid columns d)))
       \<and> (\<forall>p st. distinct (map pos0 (filter (\<lambda>i. projectId i = p \<and> status i = st) (items d))))
       \<and> (\<forall>p st. sorted_wrt (<)
             (map pos0 (filter (\<lambda>i. status i = st) (getItemsByProjectSync p d))))"
proof (intro conjI impI)
  show "uniquePositions (snd (createItemSync newId t1 t2 pid inp d))"
    by (rule create_keeps_unique[OF assms])
  show "uniquePositions (snd (updateItemSync now pid itemId upd d))"
    by (rule update_keeps_unique[OF assms])
  show "uniquePositions (snd (deleteItemSync pid itemId d))"
    by (rule deleteItem_keeps_unique[OF assms])
  show "uniquePositions (snd (deleteProjectSync pid d))"
    by (rule deleteProject_keeps_unique[OF assms])
  show "uniquePositions (snd (createProjectSync newId now (nm, key) d))"
    by (rule createProject_keeps_unique[OF assms])
  show "\<forall>p st. distinct (map pos0 (filter (\<lambda>i. projectId i = p \<and> status i = st) (items d)))"
    using assms unfolding uniquePositions_columns .
  show "\<forall>p st. sorted_wrt (<)
             (map pos0 (filter (\<lambda>i. status i = st) (getItemsByProjectSync p d)))"
    by (intro allI column_strictly_increasing[OF assms])
next
  assume "namesEveryItemOnce pid columns (items d)"
  then show "uniquePositions (snd (reorderItemsSync clock pid columns d))"
    by (rule reorder_full_keeps_unique[OF assms])
qed

theorem positions_stay_unique_witness:
  "uniquePositions ex_store
   \<and> namesEveryItemOnce ''p'' ex_full_columns (items ex_store)
   \<and> uniquePositions (snd (reorderItemsSync (\<lambda>st k. ''t3'') ''p'' ex_full_columns ex_store))
   \<and> uniquePositions (snd (createItemSync ''n'' ''t1'' ''t1'' ''p'' (ex_title ''N'') ex_store))
   \<and> uniquePositions (snd (updateItemSync ''t2'' ''p'' ''a''
         \<lparr>in_title = None, in_description = None, in_status = Some ''done''\<rparr> ex_store))"
proof -
  have u: "uniquePositions ex_store" by code_simp
  have n: "namesEveryItemOnce ''p'' ex_full_columns (items ex_store)" by code_simp
  from positions_stay_unique[OF u, of "''n''" "''t1''" "''t1''" "''p''" "ex_title ''N''" "''t2''"
      "''a''" "\<lparr>in_title = None, in_description = None, in_status = Some ''done''\<rparr>"
      _ _ ex_full_columns "\<lambda>st k. ''t3''"] u n
  show ?thesis by blast
qed

text \<open>
  A bulk reorder that names only one of two backlog cards gives it position 1 and leaves
  the other, unnamed, at position 1: the store is reached from the empty one by the
  operations themselves, and the request succeeds.
\<close>

theorem partial_reorder_breaks_unique:
  "uniquePositions ex_board
   \<and> map (\<lambda>i. (item_id i, status i, position i)) (items ex_board)
       = [(''a'', ''backlog'', Some 1), (''b'', ''backlog'', Some 2)]
   \<and> map (\<lambda>i. (item_id i, status i, position i))
         (items (snd (reorderItemsSync (\<lambda>st k. ''t3'') ''p'' ex_partial_columns ex_board)))
       = [(''a'', ''backlog'', Some 1), (''b'', ''backlog'', Some 1)]
   \<and> \<not> uniquePositions (snd (reorderItemsSync (\<lambda>st k. ''t3'') ''p'' ex_partial_columns ex_board))"
  by code_simp

section \<open>The effect of a bulk reorder\<close>

lemma reorderItemsSync_Inr:
  assumes "reorderItemsSync clock pid columns d = (Inr its, d')"
  shows "list_ex (\<lambda>p. proj_id p = pid) (projects d)
       \<and> d' = d\<lparr>items := fold (reorderColumn pid clock columns) VALID_STATUSES (items d)\<rparr>
       \<and> its = getItemsByProjectSync pid d'"
  using assms by (auto simp: reorderItemsSync_def Let_def split: if_splits)

lemma reorder_full_board:
  assumes "namesEveryItemOnce pid columns its" and "st \<in> set VALID_STATUSES"
  shows "\<exists>col. groupItemsByStatus
            (sortItems (filter (\<lambda>i. projectId i = pid)
               (fold (reorderColumn pid clock columns) VALID_STATUSES its))) st = Some col
         \<and> map item_id col = orderedIds columns st
         \<and> map position col = map (\<lambda>k. Some (int k + 1)) [0..<length (orderedIds columns st)]"
proof -
  let ?its' = "fold (reorderColumn pid clock columns) VALID_STATUSES its"
  let ?P = "filter (\<lambda>i. projectId i = pid) ?its'"
  let ?B = "filter (\<lambda>i. status i = st) ?P"
  have g: "groupItemsByStatus (sortItems ?P) st = Some (sortItems ?B)"
    using assms(2) by (simp add: groupItemsByStatus_apply sortItems_def filter_sort)
  have b1: "\<forall>i \<in> set ?B. status i = st" by simp
  have b2: "\<forall>i \<in> set ?B. \<exists>k < length (orderedIds columns st).
              orderedIds columns st ! k = item_id i \<and> position i = Some (int k + 1)"
  proof
    fix i assume "i \<in> set ?B"
    then have i: "i \<in> set ?its'" "projectId i = pid" "status i = st" by simp_all
    from full_item_place[OF assms(1) i(1,2)] i(3)
    show "\<exists>k < length (orderedIds columns st).
              orderedIds columns st ! k = item_id i \<and> position i = Some (int k + 1)"
      by blast
  qed
  have b3: "\<forall>k < length (orderedIds columns st). \<exists>i \<in> set ?B.
              item_id i = orderedIds columns st ! k \<and> position i = Some (int k + 1)"
  proof (intro allI impI)
    fix k assume "k < length (orderedIds columns st)"
    from full_place_item[OF assms(1,2) this, of clock]
    show "\<exists>i \<in> set ?B. item_id i = orderedIds columns st ! k \<and> position i = Some (int k + 1)"
      by auto
  qed
  have "map item_id ?P = map item_id (filter (\<lambda>i. projectId i = pid) its)"
    unfolding keys_filter_ids reorder_keys ..
  then have "distinct (map item_id ?P)"
    using assms(1) by (simp add: namesEveryItemOnce_def)
  then have b4: "distinct (map item_id ?B)" by (rule distinct_map_filter)
  from sorted_column[OF b1 b2 b3 b4] g show ?thesis by simp
qed

text \<open>
  Claim C1, as the code has it. After a successful reorder: for every one of the four
  statuses and every index of its sequence whose identifier occurs exactly once in the
  four sequences, the item the search finds for that identifier (the first item of the
  project with it) has the status of the column, the position index + 1 and a new update
  stamp, its other fields unchanged. The store has the same projects and as many items as
  before, and every item whose identifier is named in no sequence, or which belongs to
  another project, is unchanged in every field. When the request names every item of the
  project exactly once, the grouped response lists under each of the four statuses the
  items of its sequence, in the order of the sequence, with positions 1, 2, ... in that
  order.
\<close>

theorem reorder_effect:
  assumes "reorderItemsSync clock pid columns d = (Inr its, d')"
  shows "(\<forall>st \<in> set VALID_STATUSES. \<forall>k < length (orderedIds columns st). \<forall>j.
            count_list (payload columns) (orderedIds columns st ! k) = 1 \<and>
            findIndex (\<lambda>i. item_id i = orderedIds columns st ! k \<and> projectId i = pid) (items d)
              = Some j \<longrightarrow>
            items d' ! j = (items d ! j)\<lparr>status := st, position := Some (int k + 1),
                                          updatedAt := clock st k\<rparr>)
       \<and> length (items d') = length (items d) \<and> projects d' = projects d
       \<and> (\<forall>j < length (items d).
            item_id (items d ! j) \<notin> set (payload columns) \<or> projectId (items d ! j) \<noteq> pid \<longrightarrow>
            items d' ! j = items d ! j)
       \<and> (namesEveryItemOnce pid columns (items d) \<longrightarrow>
            (\<forall>st \<in> set VALID_STATUSES. \<exists>col.
               groupItemsByStatus its st = Some col \<and>
               map item_id col = orderedIds columns st \<and>
               map position col = map (\<lambda>k. Some (int k + 1)) [0..<length (orderedIds columns st)]))"
proof -
  from reorderItemsSync_Inr[OF assms]
  have d': "items d' = fold (reorderColumn pid clock columns) VALID_STATUSES (items d)"
    and p: "projects d' = projects d"
    and r: "its = sortItems (filter (\<lambda>i. projectId i = pid)
                    (fold (reorderColumn pid clock columns) VALID_STATUSES (items d)))"
    by (simp_all add: getItemsByProjectSync_def)
  have a: "\<forall>st \<in> set VALID_STATUSES. \<forall>k < length (orderedIds columns st). \<forall>j.
            count_list (payload columns) (orderedIds columns st ! k) = 1 \<and>
            findIndex (\<lambda>i. item_id i = orderedIds columns st ! k \<and> projectId i = pid) (items d)
              = Some j \<longrightarrow>
            items d' ! j = (items d ! j)\<lparr>status := st, position := Some (int k + 1),
                                          updatedAt := clock st k\<rparr>"
    unfolding d' by (intro ballI allI impI) (rule reorder_named_once, simp_all)
  have b: "\<forall>j < length (items d).
            item_id (items d ! j) \<notin> set (payload columns) \<or> projectId (items d ! j) \<noteq> pid \<longrightarrow>
            items d' ! j = items d ! j"
    unfolding d' by (intro allI impI) (rule reorder_unnamed, simp_all)
  have c: "namesEveryItemOnce pid columns (items d) \<longrightarrow>
            (\<forall>st \<in> set VALID_STATUSES. \<exists>col.
               groupItemsByStatus its st = Some col \<and>
               map item_id col = orderedIds columns st \<and>
               map position col = map (\<lambda>k. Some (int k + 1)) [0..<length (orderedIds columns st)])"
    unfolding r by (intro impI ballI) (rule reorder_full_board)
  from a b c p show ?thesis by (simp add: d' reorder_length)
qed

theorem reorder_effect_witness:
  "reorderItemsSync (\<lambda>st k. ''t3'') ''p'' ex_full_columns ex_store =
     (Inr [(ex_item ''b'' ''backlog'' 1)\<lparr>updatedAt := ''t3''\<rparr>,
           (ex_item ''c'' ''in_progress'' 1)\<lparr>updatedAt := ''t3''\<rparr>,
           (ex_item ''a'' ''in_progress'' 2)\<lparr>updatedAt := ''t3''\<rparr>],
      ex_store\<lparr>items := [(ex_item ''a'' ''in_progress'' 2)\<lparr>updatedAt := ''t3''\<rparr>,
                          (ex_item ''b'' ''backlog'' 1)\<lparr>updatedAt := ''t3''\<rparr>,
                          (ex_item ''c'' ''in_progress'' 1)\<lparr>updatedAt := ''t3''\<rparr>]\<rparr>)
   \<and> count_list (payload ex_full_columns) (orderedIds ex_full_columns ''in_progress'' ! 1) = 1
   \<and> findIndex (\<lambda>i. item_id i = orderedIds ex_full_columns ''in_progress'' ! 1 \<and> projectId i = ''p'')
         (items ex_store) = Some 0
   \<and> (items ex_store ! 0)\<lparr>status := ''in_progress'', position := Some (int 1 + 1),
                              updatedAt := ''t3''\<rparr>
       = (ex_item ''a'' ''in_progress'' 2)\<lparr>updatedAt := ''t3''\<rparr>
   \<and> namesEveryItemOnce ''p'' ex_full_columns (items ex_store)
   \<and> (\<exists>col. groupItemsByStatus
         [(ex_item ''b'' ''backlog'' 1)\<lparr>updatedAt := ''t3''\<rparr>,
          (ex_item ''c'' ''in_progress'' 1)\<lparr>updatedAt := ''t3''\<rparr>,
          (ex_item ''a'' ''in_progress'' 2)\<lparr>updatedAt := ''t3''\<rparr>] ''in_progress'' = Some col
        \<and> map item_id col = [''c'', ''a''] \<and> map position col = [Some 1, Some 2])
   \<and> fst (reorderItemsSync (\<lambda>st k. ''t3'') ''p'' ex_gap_columns ex_store)
       = Inr [(ex_item ''b'' ''backlog'' 2)\<lparr>updatedAt := ''t3''\<rparr>,
              (ex_item ''a'' ''backlog'' 3)\<lparr>updatedAt := ''t3''\<rparr>, ex_item ''c'' ''done'' 5]
   \<and> items (snd (reorderItemsSync (\<lambda>st k. ''t3'') ''p'' ex_gap_columns ex_store)) ! 2
       = items ex_store ! 2"
proof -
  let ?r = "[(ex_item ''b'' ''backlog'' 1)\<lparr>updatedAt := ''t3''\<rparr>,
           (ex_item ''c'' ''in_progress'' 1)\<lparr>updatedAt := ''t3''\<rparr>,
           (ex_item ''a'' ''in_progress'' 2)\<lparr>updatedAt := ''t3''\<rparr>]"
  let ?d = "ex_store\<lparr>items := [(ex_item ''a'' ''in_progress'' 2)\<lparr>updatedAt := ''t3''\<rparr>,
                          (ex_item ''b'' ''backlog'' 1)\<lparr>updatedAt := ''t3''\<rparr>,
                          (ex_item ''c'' ''in_progress'' 1)\<lparr>updatedAt := ''t3''\<rparr>]\<rparr>"
  have e: "reorderItemsSync (\<lambda>st k. ''t3'') ''p'' ex_full_columns ex_store = (Inr ?r, ?d)"
    by code_simp
  have n: "namesEveryItemOnce ''p'' ex_full_columns (items ex_store)" by code_simp
  have k: "(1::nat) < length (orderedIds ex_full_columns ''in_progress'')" by code_simp
  have cnt: "count_list (payload ex_full_columns) (orderedIds ex_full_columns ''in_progress'' ! 1) = 1"
    by code_simp
  have fnd: "findIndex (\<lambda>i. item_id i = orderedIds ex_full_columns ''in_progress'' ! 1 \<and> projectId i = ''p'')
         (items ex_store) = Some 0"
    by code_simp
  have v: "''in_progress'' \<in> set VALID_STATUSES" by code_simp
  have o: "orderedIds ex_full_columns ''in_progress'' = [''c'', ''a'']"
    by (simp add: orderedIds_def ex_full_columns_def)
  from reorder_effect[OF e] n v
  have "\<exists>col. groupItemsByStatus ?r ''in_progress'' = Some col
        \<and> map item_id col = orderedIds ex_full_columns ''in_progress''
        \<and> map position col
            = map (\<lambda>k. Some (int k + 1)) [0..<length (orderedIds ex_full_columns ''in_progress'')]"
    by blast
  then have g: "\<exists>col. groupItemsByStatus ?r ''in_progress'' = Some col
        \<and> map item_id col = [''c'', ''a''] \<and> map position col = [Some 1, Some 2]"
    unfolding o by (simp add: upt_rec)
  let ?r2 = "[(ex_item ''b'' ''backlog'' 2)\<lparr>updatedAt := ''t3''\<rparr>,
              (ex_item ''a'' ''backlog'' 3)\<lparr>updatedAt := ''t3''\<rparr>, ex_item ''c'' ''done'' 5]"
  have e2: "fst (reorderItemsSync (\<lambda>st k. ''t3'') ''p'' ex_gap_columns ex_store) = Inr ?r2"
    by code_simp
  then have e2': "reorderItemsSync (\<lambda>st k. ''t3'') ''p'' ex_gap_columns ex_store
      = (Inr ?r2, snd (reorderItemsSync (\<lambda>st k. ''t3'') ''p'' ex_gap_columns ex_store))"
    by (metis prod.collapse)
  have l: "2 < length (items ex_store)" by code_simp
  have u: "item_id (items ex_store ! 2) \<notin> set (payload ex_gap_columns)" by code_simp
  from reorder_effect[OF e2'] l u
  have "items (snd (reorderItemsSync (\<lambda>st k. ''t3'') ''p'' ex_gap_columns ex_store)) ! 2
       = items ex_store ! 2" by blast
  moreover from reorder_effect[OF e] v k cnt fnd
  have "items ?d ! 0 = (items ex_store ! 0)\<lparr>status := ''in_progress'', position := Some (int 1 + 1),
                                             updatedAt := ''t3''\<rparr>"
    by blast
  then have "(items ex_store ! 0)\<lparr>status := ''in_progress'', position := Some (int 1 + 1),
                              updatedAt := ''t3''\<rparr>
       = (ex_item ''a'' ''in_progress'' 2)\<lparr>updatedAt := ''t3''\<rparr>"
    by simp
  ultimately show ?thesis using e n g e2 cnt fnd by blast
qed

text \<open>
  An identifier named in two sequences ends with the status and position of its last
  occurrence, not with those of the first.
\<close>

theorem reorder_last_occurrence_wins:
  "''backlog'' \<in> set VALID_STATUSES
   \<and> orderedIds ex_twice_columns ''backlog'' ! 0 = ''a''
   \<and> findIndex (\<lambda>i. item_id i = ''a'' \<and> projectId i = ''p'') (items ex_store) = Some 0
   \<and> fst (reorderItemsSync (\<lambda>st k. ''t3'') ''p'' ex_twice_columns ex_store)
       = Inr [ex_item ''b'' ''backlog'' 2, (ex_item ''a'' ''done'' 1)\<lparr>updatedAt := ''t3''\<rparr>,
              ex_item ''c'' ''done'' 5]
   \<and> status (items (snd (reorderItemsSync (\<lambda>st k. ''t3'') ''p'' ex_twice_columns ex_store)) ! 0)
       = ''done''
   \<and> ''done'' \<noteq> ''backlog''"
  by code_simp

end
